theory Spec2Isabelle
  imports Main "HOL-Library.AList"
begin

section \<open>Data model\<close>

text \<open>
  The backend keeps companies, contacts and upload batches in relational tables and
  reads and writes them through ORM objects. A table is modelled as the list of its
  rows; a query is a function on that list, and a flush writes the in-memory objects
  back to the rows with the same primary key.

  A UUID is represented by its canonical text, so \<open>str(uuid)\<close> is the identity. A
  timestamp is an instant on a linear time line.
\<close>

type_synonym uuid = string
type_synonym timestamp = nat

text \<open>\<open>app/models/contact.py\<close>: \<open>ContactStatusEnum\<close>.\<close>

datatype contact_status = UPLOADED | APPROVED | ASSIGNED_TO_SDR | MEETING_SCHEDULED

text \<open>\<open>app/models/company.py\<close>: \<open>CompanyStatusEnum\<close>. The member \<open>APPROVED\<close> is
  written \<open>COMPANY_APPROVED\<close>, since the contact enumeration has a member of that name.\<close>

datatype company_status = PENDING | COMPANY_APPROVED | REJECTED

text \<open>\<open>app/models/upload_batch.py\<close>: \<open>UploadTypeEnum\<close> and \<open>BatchStatusEnum\<close>.\<close>

datatype upload_type = COMPANY | CONTACT

datatype batch_status = PROCESSING | COMPLETED | FAILED

text \<open>
  \<open>app/models/base.py\<close>: \<open>BaseModel\<close> gives every row of the two entity tables a
  primary key and a creation time (\<open>updated_at\<close> plays no role in what follows).
\<close>

record base_model =
  row_id :: uuid
  created_at :: timestamp

text \<open>
  \<open>app/models/contact.py\<close>: \<open>Contact\<close>. Text columns that Python code may find to be
  \<open>None\<close> are options. The descriptive columns that no operation below inspects
  (phones, job title, address, LinkedIn data) are kept together in \<open>attrs\<close>, from
  column name to value.
\<close>

record contact = base_model +
  first_name :: "string option"
  last_name :: "string option"
  email :: "string option"
  company_id :: "uuid option"
  segment_id :: "uuid option"
  status :: contact_status
  assigned_sdr_id :: "uuid option"
  is_duplicate :: bool
  batch_id :: "uuid option"
  created_by :: uuid
  attrs :: "(string \<times> string option) list"

text \<open>\<open>app/models/company.py\<close>: \<open>Company\<close>.\<close>

record company = base_model +
  company_name :: "string option"
  company_website :: "string option"
  founded_year :: "int option"
  segment_id :: "uuid option"
  status :: company_status
  rejection_reason :: "string option"
  is_duplicate :: bool
  batch_id :: "uuid option"
  created_by :: uuid
  approved_by :: "uuid option"
  approved_at :: "timestamp option"
  attrs :: "(string \<times> string option) list"

text \<open>\<open>app/models/upload_batch.py\<close>: \<open>UploadBatch\<close>.\<close>

record upload_batch =
  batch_row_id :: uuid
  upload_type :: upload_type
  file_name :: string
  file_size_bytes :: nat
  total_rows :: nat
  valid_rows :: nat
  invalid_rows :: nat
  batch_status :: batch_status
  uploaded_by :: uuid

text \<open>The database session: the three tables.\<close>

record db =
  companies :: "company list"
  contacts :: "contact list"
  upload_batches :: "upload_batch list"

section \<open>Errors\<close>

text \<open>
  Every failure of the service layer is a Python \<open>ValueError\<close>; the three kinds are
  told apart by their message:
  \<^item> \<open>NotFound\<close>: "... with ID ... not found";
  \<^item> \<open>InvalidInput\<close>: "Approval status must be 'approved'";
  \<^item> \<open>InvalidTransition\<close>: "Cannot approve/assign/mark ... with status ...".
  A call that cannot bind its arguments raises \<open>TypeError\<close>, and a method call on
  \<open>None\<close> raises \<open>AttributeError\<close>.
\<close>

datatype error = NotFound | InvalidInput | InvalidTransition

datatype exn = ValueError error | TypeError | AttributeError

section \<open>Contact service\<close>

text \<open>\<open>get_contact\<close>: \<open>select(Contact).where(Contact.id == contact_id)\<close>,
  \<open>scalar_one_or_none\<close>.\<close>

definition get_contact :: "db \<Rightarrow> uuid \<Rightarrow> contact option" where
  "get_contact d contact_id = find (\<lambda>c. row_id c = contact_id) (contacts d)"

text \<open>\<open>db.flush()\<close> after an attribute of the loaded contact was assigned: the row
  with the object's primary key takes the object's values.\<close>

definition flush_contact :: "db \<Rightarrow> contact \<Rightarrow> db" where
  "flush_contact d c =
     d\<lparr>contacts := map (\<lambda>r. if row_id r = row_id c then c else r) (contacts d)\<rparr>"

text \<open>\<open>ContactApproval\<close> (\<open>app/schemas/contact.py\<close>) has the single field
  \<open>status: ContactStatusEnum\<close>, so an approval is a contact status.\<close>

type_synonym contact_approval = contact_status

definition approve_contact :: "db \<Rightarrow> uuid \<Rightarrow> contact_approval \<Rightarrow> error + (db \<times> contact)" where
  "approve_contact d contact_id approval =
     (case get_contact d contact_id of
        None \<Rightarrow> Inl NotFound
      | Some c \<Rightarrow>
          if approval \<noteq> APPROVED then Inl InvalidInput
          else if contact.status c \<noteq> UPLOADED then Inl InvalidTransition
          else (let c' = c\<lparr>contact.status := APPROVED\<rparr>
                in Inr (flush_contact d c', c')))"

text \<open>\<open>assign_to_sdr\<close>: the parameter \<open>sdr_id: UUID\<close> is not optional.\<close>

definition assign_to_sdr :: "db \<Rightarrow> uuid \<Rightarrow> uuid \<Rightarrow> error + (db \<times> contact)" where
  "assign_to_sdr d contact_id sdr_id =
     (case get_contact d contact_id of
        None \<Rightarrow> Inl NotFound
      | Some c \<Rightarrow>
          if contact.status c \<noteq> APPROVED then Inl InvalidTransition
          else (let c' = c\<lparr>assigned_sdr_id := Some sdr_id, contact.status := ASSIGNED_TO_SDR\<rparr>
                in Inr (flush_contact d c', c')))"

definition mark_meeting_scheduled :: "db \<Rightarrow> uuid \<Rightarrow> error + (db \<times> contact)" where
  "mark_meeting_scheduled d contact_id =
     (case get_contact d contact_id of
        None \<Rightarrow> Inl NotFound
      | Some c \<Rightarrow>
          if contact.status c \<noteq> ASSIGNED_TO_SDR then Inl InvalidTransition
          else (let c' = c\<lparr>contact.status := MEETING_SCHEDULED\<rparr>
                in Inr (flush_contact d c', c')))"


text \<open>
  \<open>ContactCreate\<close> (\<open>app/schemas/contact.py\<close>): the validated creation data. The three
  required text fields are plain strings; the optional descriptive fields are in
  \<open>attrs\<close>.
\<close>

record contact_create =
  first_name :: string
  last_name :: string
  email :: string
  company_id :: uuid
  attrs :: "(string \<times> string option) list"

text \<open>
  \<open>ContactUpdate\<close> (\<open>app/schemas/contact.py\<close>): every field is optional, and
  \<open>model_dump(exclude_unset=True)\<close> keeps the fields the request has set. A field is
  \<open>None\<close> when unset, \<open>Some None\<close> when set to null and \<open>Some (Some v)\<close> when set
  to \<open>v\<close>. The schema has no field for \<open>status\<close>, \<open>assigned_sdr_id\<close> or
  \<open>is_duplicate\<close>; \<open>attrs\<close> lists the descriptive fields that are set.
\<close>

record contact_update =
  first_name :: "string option option"
  last_name :: "string option option"
  email :: "string option option"
  company_id :: "uuid option option"
  attrs :: "(string \<times> string option) list"

text \<open>\<open>select(Company).where(Company.id == ...)\<close>, \<open>scalar_one_or_none\<close>.\<close>

definition get_company :: "db \<Rightarrow> uuid \<Rightarrow> company option" where
  "get_company d cid = find (\<lambda>c. row_id c = cid) (companies d)"

text \<open>
  The \<open>Contact(...)\<close> constructor as \<open>create_contact\<close> and \<open>process_contact_csv\<close> call
  it, and \<open>create_contact\<close>. The primary key and the creation time are generated when
  the new row is flushed (\<open>uuid4\<close>, \<open>utcnow\<close>); they are the parameters \<open>new_id\<close> and
  \<open>now\<close>. The constructor leaves \<open>assigned_sdr_id\<close> and \<open>is_duplicate\<close> to their
  column defaults.
\<close>

definition Contact ::
  "uuid \<Rightarrow> timestamp \<Rightarrow> contact_create \<Rightarrow> uuid option \<Rightarrow> uuid option \<Rightarrow> uuid option \<Rightarrow> uuid
     \<Rightarrow> contact" where
  "Contact new_id now data cid seg batch created_by' =
     \<lparr>row_id = new_id, created_at = now,
      contact.first_name = Some (contact_create.first_name data),
      contact.last_name = Some (contact_create.last_name data),
      contact.email = Some (contact_create.email data),
      contact.company_id = cid,
      contact.segment_id = seg,
      contact.status = UPLOADED,
      contact.assigned_sdr_id = None,
      contact.is_duplicate = False,
      contact.batch_id = batch,
      contact.created_by = created_by',
      contact.attrs = contact_create.attrs data\<rparr>"

definition create_contact ::
  "db \<Rightarrow> contact_create \<Rightarrow> uuid \<Rightarrow> uuid \<Rightarrow> timestamp \<Rightarrow> error + (db \<times> contact)" where
  "create_contact d data created_by' new_id now =
     (case get_company d (contact_create.company_id data) of
        None \<Rightarrow> Inl NotFound
      | Some co \<Rightarrow>
          (let c = Contact new_id now data (Some (contact_create.company_id data))
                     (company.segment_id co) None created_by'
           in Inr (d\<lparr>contacts := contacts d @ [c]\<rparr>, c)))"

text \<open>\<open>update_contact\<close>: \<open>setattr\<close> for every field the update has set.\<close>

definition apply_contact_update :: "contact_update \<Rightarrow> contact \<Rightarrow> contact" where
  "apply_contact_update data c =
     (let c1 = (case contact_update.first_name data of None \<Rightarrow> c
                | Some v \<Rightarrow> c\<lparr>contact.first_name := v\<rparr>);
          c2 = (case contact_update.last_name data of None \<Rightarrow> c1
                | Some v \<Rightarrow> c1\<lparr>contact.last_name := v\<rparr>);
          c3 = (case contact_update.email data of None \<Rightarrow> c2
                | Some v \<Rightarrow> c2\<lparr>contact.email := v\<rparr>);
          c4 = (case contact_update.company_id data of None \<Rightarrow> c3
                | Some v \<Rightarrow> c3\<lparr>contact.company_id := v\<rparr>)
      in c4\<lparr>contact.attrs :=
              fold (\<lambda>(k, v). AList.update k v) (contact_update.attrs data) (contact.attrs c4)\<rparr>)"

definition update_contact :: "db \<Rightarrow> uuid \<Rightarrow> contact_update \<Rightarrow> error + (db \<times> contact)" where
  "update_contact d contact_id data =
     (case get_contact d contact_id of
        None \<Rightarrow> Inl NotFound
      | Some c \<Rightarrow> (let c' = apply_contact_update data c in Inr (flush_contact d c', c')))"

text \<open>\<open>bulk_assign_to_sdr\<close>: the loop calls \<open>assign_to_sdr\<close> for each id and stops at
  the first exception.\<close>

fun bulk_assign_to_sdr :: "db \<Rightarrow> uuid list \<Rightarrow> uuid \<Rightarrow> error + (db \<times> contact list)" where
  "bulk_assign_to_sdr d [] sdr_id = Inr (d, [])"
| "bulk_assign_to_sdr d (contact_id # contact_ids) sdr_id =
     (case assign_to_sdr d contact_id sdr_id of
        Inl e \<Rightarrow> Inl e
      | Inr (d', c) \<Rightarrow>
          (case bulk_assign_to_sdr d' contact_ids sdr_id of
             Inl e \<Rightarrow> Inl e
           | Inr (d'', cs) \<Rightarrow> Inr (d'', c # cs)))"

text \<open>\<open>contact_service.mark_duplicate\<close>.\<close>

definition contact_mark_duplicate :: "db \<Rightarrow> uuid \<Rightarrow> bool \<Rightarrow> error + (db \<times> contact)" where
  "contact_mark_duplicate d contact_id flag =
     (case get_contact d contact_id of
        None \<Rightarrow> Inl NotFound
      | Some c \<Rightarrow> (let c' = c\<lparr>contact.is_duplicate := flag\<rparr> in Inr (flush_contact d c', c')))"

text \<open>The position of a status in the pipeline
  \<open>uploaded -> approved -> assigned_to_sdr -> meeting_scheduled\<close>.\<close>

fun stage :: "contact_status \<Rightarrow> nat" where
  "stage UPLOADED = 0"
| "stage APPROVED = 1"
| "stage ASSIGNED_TO_SDR = 2"
| "stage MEETING_SCHEDULED = 3"

text \<open>One successful operation of the contact service on the database.\<close>

inductive contact_step :: "db \<Rightarrow> db \<Rightarrow> bool" where
  step_create: "create_contact d data u new_id now = Inr (d', c) \<Longrightarrow> contact_step d d'"
| step_update: "update_contact d i upd = Inr (d', c) \<Longrightarrow> contact_step d d'"
| step_approve: "approve_contact d i approval = Inr (d', c) \<Longrightarrow> contact_step d d'"
| step_assign: "assign_to_sdr d i sdr_id = Inr (d', c) \<Longrightarrow> contact_step d d'"
| step_bulk_assign: "bulk_assign_to_sdr d ids sdr_id = Inr (d', cs) \<Longrightarrow> contact_step d d'"
| step_meeting: "mark_meeting_scheduled d i = Inr (d', c) \<Longrightarrow> contact_step d d'"
| step_duplicate: "contact_mark_duplicate d i flag = Inr (d', c) \<Longrightarrow> contact_step d d'"

section \<open>Company schemas and service\<close>

text \<open>Python truth value of a \<open>str | None\<close>: \<open>None\<close> and the empty string are false.\<close>

definition truthy :: "string option \<Rightarrow> bool" where
  "truthy x = (case x of None \<Rightarrow> False | Some s \<Rightarrow> s \<noteq> [])"

text \<open>\<open>CompanyCreate\<close> (\<open>app/schemas/company.py\<close>): the validated creation data.\<close>

record company_create =
  company_name :: string
  company_website :: "string option"
  founded_year :: "int option"
  segment_id :: uuid
  attrs :: "(string \<times> string option) list"

text \<open>\<open>CompanyUpdate\<close>: as for contacts, a field is \<open>None\<close> when the request has not
  set it. The schema has no field for \<open>status\<close>, \<open>rejection_reason\<close> or
  \<open>is_duplicate\<close>.\<close>

record company_update =
  company_name :: "string option option"
  company_website :: "string option option"
  founded_year :: "int option option"
  segment_id :: "uuid option option"
  attrs :: "(string \<times> string option) list"

text \<open>
  \<open>CompanyApproval\<close>: the fields, then the construction of the schema object from the
  request body. Field validation comes first: \<open>status\<close> must be the value of a member
  of \<open>CompanyStatusEnum\<close> and \<open>rejection_reason\<close> has \<open>max_length=5000\<close>; then
  \<open>model_post_init\<close> runs its three checks in order.
\<close>

record company_approval =
  status :: company_status
  rejection_reason :: "string option"

datatype schema_error = FieldValidationError | PostInitValueError

definition CompanyStatusEnum :: "string \<Rightarrow> company_status option" where
  "CompanyStatusEnum v =
     (if v = ''pending'' then Some PENDING
      else if v = ''approved'' then Some COMPANY_APPROVED
      else if v = ''rejected'' then Some REJECTED
      else None)"

definition model_post_init :: "company_approval \<Rightarrow> schema_error + company_approval" where
  "model_post_init a =
     (if company_approval.status a = PENDING then Inl PostInitValueError
      else if company_approval.status a = REJECTED
              \<and> \<not> truthy (company_approval.rejection_reason a) then Inl PostInitValueError
      else if company_approval.status a \<noteq> REJECTED
              \<and> truthy (company_approval.rejection_reason a) then Inl PostInitValueError
      else Inr a)"

definition CompanyApproval :: "string \<Rightarrow> string option \<Rightarrow> schema_error + company_approval" where
  "CompanyApproval raw_status raw_reason =
     (case CompanyStatusEnum raw_status of
        None \<Rightarrow> Inl FieldValidationError
      | Some st \<Rightarrow>
          (case raw_reason of
             Some r \<Rightarrow>
               if length r > 5000 then Inl FieldValidationError
               else model_post_init \<lparr>company_approval.status = st,
                                     company_approval.rejection_reason = raw_reason\<rparr>
           | None \<Rightarrow>
               model_post_init \<lparr>company_approval.status = st,
                                company_approval.rejection_reason = raw_reason\<rparr>))"

text \<open>\<open>db.flush()\<close> after attributes of a loaded company were assigned.\<close>

definition flush_company :: "db \<Rightarrow> company \<Rightarrow> db" where
  "flush_company d c =
     d\<lparr>companies := map (\<lambda>r. if row_id r = row_id c then c else r) (companies d)\<rparr>"

text \<open>
  The \<open>Company(...)\<close> constructor as \<open>create_company\<close> and \<open>process_company_csv\<close> call
  it, with the column defaults that the flush fills in: the status is \<open>PENDING\<close>, and
  \<open>rejection_reason\<close>, \<open>approved_by\<close> and \<open>approved_at\<close> are not passed.
\<close>

definition Company ::
  "uuid \<Rightarrow> timestamp \<Rightarrow> company_create \<Rightarrow> uuid option \<Rightarrow> uuid option \<Rightarrow> uuid \<Rightarrow> company" where
  "Company new_id now data seg batch created_by' =
     \<lparr>row_id = new_id, created_at = now,
      company.company_name = Some (company_create.company_name data),
      company.company_website = company_create.company_website data,
      company.founded_year = company_create.founded_year data,
      company.segment_id = seg,
      company.status = PENDING,
      company.rejection_reason = None,
      company.is_duplicate = False,
      company.batch_id = batch,
      company.created_by = created_by',
      company.approved_by = None,
      company.approved_at = None,
      company.attrs = company_create.attrs data\<rparr>"

definition create_company :: "db \<Rightarrow> company_create \<Rightarrow> uuid \<Rightarrow> uuid \<Rightarrow> timestamp \<Rightarrow> db \<times> company" where
  "create_company d data created_by' new_id now =
     (let c = Company new_id now data (Some (company_create.segment_id data)) None created_by'
      in (d\<lparr>companies := companies d @ [c]\<rparr>, c))"

definition apply_company_update :: "company_update \<Rightarrow> company \<Rightarrow> company" where
  "apply_company_update data c =
     (let c1 = (case company_update.company_name data of None \<Rightarrow> c
                | Some v \<Rightarrow> c\<lparr>company.company_name := v\<rparr>);
          c2 = (case company_update.company_website data of None \<Rightarrow> c1
                | Some v \<Rightarrow> c1\<lparr>company.company_website := v\<rparr>);
          c3 = (case company_update.founded_year data of None \<Rightarrow> c2
                | Some v \<Rightarrow> c2\<lparr>company.founded_year := v\<rparr>);
          c4 = (case company_update.segment_id data of None \<Rightarrow> c3
                | Some v \<Rightarrow> c3\<lparr>company.segment_id := v\<rparr>)
      in c4\<lparr>company.attrs :=
              fold (\<lambda>(k, v). AList.update k v) (company_update.attrs data) (company.attrs c4)\<rparr>)"

definition update_company :: "db \<Rightarrow> uuid \<Rightarrow> company_update \<Rightarrow> error + (db \<times> company)" where
  "update_company d cid data =
     (case get_company d cid of
        None \<Rightarrow> Inl NotFound
      | Some c \<Rightarrow> (let c' = apply_company_update data c in Inr (flush_company d c', c')))"

text \<open>\<open>approve_company\<close>; \<open>now\<close> is the value of \<open>datetime.now(timezone.utc)\<close>.\<close>

definition approve_company ::
  "db \<Rightarrow> uuid \<Rightarrow> company_approval \<Rightarrow> uuid option \<Rightarrow> timestamp \<Rightarrow> error + (db \<times> company)" where
  "approve_company d cid approval approved_by' now =
     (case get_company d cid of
        None \<Rightarrow> Inl NotFound
      | Some c \<Rightarrow>
          if company.status c \<noteq> PENDING then Inl InvalidTransition
          else
            (let c1 = c\<lparr>company.status := company_approval.status approval,
                        company.rejection_reason := company_approval.rejection_reason approval\<rparr>;
                 c2 = (case approved_by' of
                         None \<Rightarrow> c1
                       | Some u \<Rightarrow> c1\<lparr>approved_by := Some u, approved_at := Some now\<rparr>)
             in Inr (flush_company d c2, c2)))"

text \<open>\<open>company_service.mark_duplicate\<close>.\<close>

definition company_mark_duplicate :: "db \<Rightarrow> uuid \<Rightarrow> bool \<Rightarrow> error + (db \<times> company)" where
  "company_mark_duplicate d cid flag =
     (case get_company d cid of
        None \<Rightarrow> Inl NotFound
      | Some c \<Rightarrow> (let c' = c\<lparr>company.is_duplicate := flag\<rparr> in Inr (flush_company d c', c')))"


section \<open>Duplicate detection\<close>

text \<open>
  Text is modelled as ASCII. On ASCII, \<open>str.lower\<close> maps the letters \<open>A\<close> to \<open>Z\<close> to
  \<open>a\<close> to \<open>z\<close> and leaves every other character, and \<open>str.strip\<close> removes white
  space from both ends: tab to carriage return (9 to 13), the four separators 28 to
  31 and the space. The results on duplicate detection below hold for any
  normalisation; only the statement on blank fields depends on this one.
\<close>

definition py_isspace :: "char \<Rightarrow> bool" where
  "py_isspace c = (let n = (of_char c :: nat) in (9 \<le> n \<and> n \<le> 13) \<or> (28 \<le> n \<and> n \<le> 32))"

definition lower_char :: "char \<Rightarrow> char" where
  "lower_char c = (let n = (of_char c :: nat) in if 65 \<le> n \<and> n \<le> 90 then char_of (n + 32) else c)"

definition str_lower :: "string \<Rightarrow> string" where
  "str_lower s = map lower_char s"

definition str_strip :: "string \<Rightarrow> string" where
  "str_strip s = rev (dropWhile py_isspace (rev (dropWhile py_isspace s)))"

text \<open>\<open>x.lower().strip() if x else ''\<close>.\<close>

definition normalized :: "string option \<Rightarrow> string" where
  "normalized x = (if truthy x then (case x of Some s \<Rightarrow> str_strip (str_lower s) | None \<Rightarrow> [])
                   else [])"

text \<open>The key of a company: \<open>f"{name_key}||{website_key}"\<close>.\<close>

definition company_key :: "company \<Rightarrow> string" where
  "company_key c =
     (let name_key = normalized (company.company_name c);
          website_key = normalized (company.company_website c)
      in name_key @ ''||'' @ website_key)"

text \<open>The key of a contact: \<open>email_key\<close>.\<close>

definition email_key :: "contact \<Rightarrow> string" where
  "email_key c = normalized (contact.email c)"

text \<open>
  The loop of \<open>detect_company_duplicates\<close> over the companies the query returned. The
  loop state is the dictionary \<open>seen\<close> and the counter \<open>duplicates_marked\<close>; the result
  is the list of the objects as the loop leaves them, and the final counter.
\<close>

fun detect_companies_loop ::
  "(string \<rightharpoonup> company) \<Rightarrow> nat \<Rightarrow> company list \<Rightarrow> company list \<times> nat" where
  "detect_companies_loop seen duplicates_marked [] = ([], duplicates_marked)"
| "detect_companies_loop seen duplicates_marked (c # cs) =
     (let key = company_key c in
      if seen key \<noteq> None then
        (if \<not> company.is_duplicate c then
           (let (cs', n) = detect_companies_loop seen (duplicates_marked + 1) cs
            in (c\<lparr>company.is_duplicate := True\<rparr> # cs', n))
         else
           (let (cs', n) = detect_companies_loop seen duplicates_marked cs
            in (c # cs', n)))
      else
        (let seen' = seen(key \<mapsto> c) in
         if company.is_duplicate c then
           (let (cs', n) = detect_companies_loop seen' duplicates_marked cs
            in (c\<lparr>company.is_duplicate := False\<rparr> # cs', n))
         else
           (let (cs', n) = detect_companies_loop seen' duplicates_marked cs
            in (c # cs', n))))"

fun detect_contacts_loop ::
  "(string \<rightharpoonup> contact) \<Rightarrow> nat \<Rightarrow> contact list \<Rightarrow> contact list \<times> nat" where
  "detect_contacts_loop seen duplicates_marked [] = ([], duplicates_marked)"
| "detect_contacts_loop seen duplicates_marked (c # cs) =
     (let key = email_key c in
      if seen key \<noteq> None then
        (if \<not> contact.is_duplicate c then
           (let (cs', n) = detect_contacts_loop seen (duplicates_marked + 1) cs
            in (c\<lparr>contact.is_duplicate := True\<rparr> # cs', n))
         else
           (let (cs', n) = detect_contacts_loop seen duplicates_marked cs
            in (c # cs', n)))
      else
        (let seen' = seen(key \<mapsto> c) in
         if contact.is_duplicate c then
           (let (cs', n) = detect_contacts_loop seen' duplicates_marked cs
            in (c\<lparr>contact.is_duplicate := False\<rparr> # cs', n))
         else
           (let (cs', n) = detect_contacts_loop seen' duplicates_marked cs
            in (c # cs', n))))"

text \<open>
  The two queries: the rows of the scope, \<open>order_by(created_at.asc())\<close>. Rows with the
  same creation time come in table order.
\<close>

definition companies_of_segment :: "db \<Rightarrow> uuid \<Rightarrow> company list" where
  "companies_of_segment d seg =
     sort_key created_at (filter (\<lambda>c. company.segment_id c = Some seg) (companies d))"

definition contacts_of_company :: "db \<Rightarrow> uuid \<Rightarrow> contact list" where
  "contacts_of_company d cid =
     sort_key created_at (filter (\<lambda>c. contact.company_id c = Some cid) (contacts d))"

text \<open>\<open>db.flush()\<close> after the loop: every row takes the values of the loaded object
  with its primary key, if there is one.\<close>

definition flush_rows :: "('a base_model_scheme) list \<Rightarrow> ('a base_model_scheme) list \<Rightarrow> ('a base_model_scheme) list" where
  "flush_rows objs table =
     map (\<lambda>r. case find (\<lambda>c. row_id c = row_id r) objs of Some c \<Rightarrow> c | None \<Rightarrow> r) table"

definition detect_company_duplicates :: "db \<Rightarrow> uuid \<Rightarrow> db \<times> nat" where
  "detect_company_duplicates d seg =
     (let (cs', n) = detect_companies_loop Map.empty 0 (companies_of_segment d seg)
      in (d\<lparr>companies := flush_rows cs' (companies d)\<rparr>, n))"

definition detect_contact_duplicates :: "db \<Rightarrow> uuid \<Rightarrow> db \<times> nat" where
  "detect_contact_duplicates d cid =
     (let (cs', n) = detect_contacts_loop Map.empty 0 (contacts_of_company d cid)
      in (d\<lparr>contacts := flush_rows cs' (contacts d)\<rparr>, n))"

section \<open>Batch ingestion\<close>

text \<open>
  \<open>app/services/upload_service.py\<close>. The model starts from the rows that
  \<open>csv.DictReader\<close> yields: a row is a dictionary from header name to cell, and a cell
  is \<open>None\<close> when the line is shorter than the header. The file is its name, the
  length of its content and its rows.
\<close>

type_synonym csv_row = "(string \<times> string option) list"

record upload_file =
  filename :: "string option"
  content_length :: nat
  rows :: "csv_row list"

text \<open>\<open>UploadError\<close>.\<close>

record upload_error =
  row_number :: nat
  field :: string
  error :: string

text \<open>
  What the \<open>try\<close> block of a row does: the schema accepts the row, or it raises a
  \<open>ValidationError\<close> whose \<open>errors()\<close> are pairs of a location and a message, or any
  other exception is raised. The schemas are validated by the pydantic library, so the
  validation of a filtered row is a parameter of the ingestion.
\<close>

datatype 'a validation =
  Valid 'a | ValidationError "(string list \<times> string) list" | OtherException string

text \<open>The environment: the primary key of the new batch, and the primary key and
  creation time of the \<open>k\<close>-th row the batch adds.\<close>

record env =
  new_batch_id :: uuid
  gen_id :: "nat \<Rightarrow> uuid"
  gen_time :: "nat \<Rightarrow> timestamp"

definition create_batch ::
  "db \<Rightarrow> uuid \<Rightarrow> upload_type \<Rightarrow> string \<Rightarrow> nat \<Rightarrow> uuid \<Rightarrow> db \<times> upload_batch" where
  "create_batch d new_id t name size' user =
     (let batch = \<lparr>batch_row_id = new_id, upload_type = t, file_name = name,
                     file_size_bytes = size', total_rows = 0, valid_rows = 0,
                     invalid_rows = 0, batch_status = PROCESSING, uploaded_by = user\<rparr>
      in (d\<lparr>upload_batches := upload_batches d @ [batch]\<rparr>, batch))"

definition flush_batch :: "db \<Rightarrow> upload_batch \<Rightarrow> db" where
  "flush_batch d b =
     d\<lparr>upload_batches :=
         map (\<lambda>r. if batch_row_id r = batch_row_id b then b else r) (upload_batches d)\<rparr>"

text \<open>\<open>file.filename or "unknown.csv"\<close>.\<close>

definition file_name_of :: "upload_file \<Rightarrow> string" where
  "file_name_of file = (if truthy (filename file) then (case filename file of Some n \<Rightarrow> n | None \<Rightarrow> [])
                        else ''unknown.csv'')"

definition company_schema_fields :: "string list" where
  "company_schema_fields =
     [''company_name'', ''company_website'', ''company_phone'', ''company_description'',
      ''company_linkedin_url'', ''company_industry'', ''company_sub_industry'',
      ''street'', ''city'', ''state_province'', ''country_region'', ''zip_postal_code'',
      ''founded_year'', ''revenue_range'', ''employee_size_range'']"

definition contact_schema_fields :: "string list" where
  "contact_schema_fields =
     [''first_name'', ''last_name'', ''email'', ''mobile_phone'', ''job_title'',
      ''direct_phone_number'', ''email_address_2'', ''email_active_status'',
      ''lead_source_global'', ''management_level'', ''street'', ''city'',
      ''state_province'', ''country_region'', ''zip_postal_code'', ''primary_time_zone'',
      ''contact_linkedin_url'', ''linkedin_summary'', ''data_requester_details'']"

text \<open>\<open>filtered_row\<close>: the recognised columns, each cell stripped, and the empty
  string turned into \<open>None\<close>.\<close>

definition filter_row :: "string list \<Rightarrow> csv_row \<Rightarrow> csv_row" where
  "filter_row schema_fields row =
     map (\<lambda>(key, value).
            (key, case value of
                    None \<Rightarrow> None
                  | Some v \<Rightarrow> (let t = str_strip v in if t = [] then None else Some t)))
         (filter (\<lambda>(key, value). key \<in> set schema_fields) row)"

text \<open>The errors one \<open>ValidationError\<close> adds:
  \<open>field = error['loc'][0] if error['loc'] else 'unknown'\<close>.\<close>

definition validation_errors :: "nat \<Rightarrow> (string list \<times> string) list \<Rightarrow> upload_error list" where
  "validation_errors n errs =
     map (\<lambda>(loc, msg). \<lparr>row_number = n,
                         field = (case loc of [] \<Rightarrow> ''unknown'' | f # _ \<Rightarrow> f),
                         error = msg\<rparr>) errs"

text \<open>The local variables of the row loop; \<open>staged\<close> are the objects given to
  \<open>db.add\<close>.\<close>

record 'a ingest =
  errors :: "upload_error list"
  total_rows :: nat
  valid_rows :: nat
  invalid_rows :: nat
  staged :: "'a list"

text \<open>The row loop of \<open>process_company_csv\<close>; \<open>enumerate(csv_reader, start=2)\<close>.\<close>

fun process_company_rows ::
  "env \<Rightarrow> (csv_row \<Rightarrow> company_create validation) \<Rightarrow> uuid \<Rightarrow> uuid \<Rightarrow> uuid
     \<Rightarrow> nat \<Rightarrow> csv_row list \<Rightarrow> company ingest \<Rightarrow> company ingest" where
  "process_company_rows e CompanyCreate seg batch user n [] st = st"
| "process_company_rows e CompanyCreate seg batch user n (row # rest) st =
     (let st1 = st\<lparr>ingest.total_rows := ingest.total_rows st + 1\<rparr>;
          filtered_row = AList.update ''segment_id'' (Some seg)
                           (filter_row company_schema_fields row);
          st2 = (case CompanyCreate filtered_row of
                   Valid company_data \<Rightarrow>
                     (let k = length (staged st1);
                          c = Company (gen_id e k) (gen_time e k) company_data
                                (Some seg) (Some batch) user
                      in st1\<lparr>staged := staged st1 @ [c],
                             ingest.valid_rows := ingest.valid_rows st1 + 1\<rparr>)
                 | ValidationError errs \<Rightarrow>
                     st1\<lparr>ingest.invalid_rows := ingest.invalid_rows st1 + 1,
                         errors := errors st1 @ validation_errors n errs\<rparr>
                 | OtherException msg \<Rightarrow>
                     st1\<lparr>ingest.invalid_rows := ingest.invalid_rows st1 + 1,
                         errors := errors st1
                           @ [\<lparr>row_number = n, field = ''general'', error = msg\<rparr>]\<rparr>)
      in process_company_rows e CompanyCreate seg batch user (n + 1) rest st2)"

text \<open>What an ingestion leaves: the database, the batch and the row errors it returns,
  and the scopes on which it has invoked the duplicate detector.\<close>

record csv_result =
  out_db :: db
  out_batch :: upload_batch
  out_errors :: "upload_error list"
  detector_runs :: "uuid list"

definition process_company_csv ::
  "env \<Rightarrow> (csv_row \<Rightarrow> company_create validation) \<Rightarrow> db \<Rightarrow> upload_file \<Rightarrow> uuid \<Rightarrow> uuid
     \<Rightarrow> csv_result" where
  "process_company_csv e CompanyCreate d file seg user =
     (let (d0, batch) = create_batch d (new_batch_id e) COMPANY (file_name_of file)
                          (content_length file) user;
          st = process_company_rows e CompanyCreate seg (batch_row_id batch) user 2 (rows file)
                 \<lparr>errors = [], total_rows = 0, valid_rows = 0, invalid_rows = 0, staged = []\<rparr>;
          batch' = batch\<lparr>upload_batch.total_rows := ingest.total_rows st,
                         upload_batch.valid_rows := ingest.valid_rows st,
                         upload_batch.invalid_rows := ingest.invalid_rows st,
                         batch_status := (if ingest.invalid_rows st = 0 then COMPLETED else FAILED)\<rparr>;
          d1 = flush_batch (d0\<lparr>companies := companies d0 @ staged st\<rparr>) batch'
      in if ingest.valid_rows st > 0
         then \<lparr>out_db = fst (detect_company_duplicates d1 seg), out_batch = batch',
               out_errors = errors st, detector_runs = [seg]\<rparr>
         else \<lparr>out_db = d1, out_batch = batch', out_errors = errors st, detector_runs = []\<rparr>)"

text \<open>
  \<open>process_contact_csv\<close>. The name lookup is the dictionary comprehension over the
  companies of the segment, in table order; a later company with the same key replaces
  an earlier one. \<open>company.company_name.lower()\<close> raises on \<open>None\<close>.
\<close>

fun build_company_lookup :: "company list \<Rightarrow> exn + (string \<times> company) list" where
  "build_company_lookup [] = Inr []"
| "build_company_lookup (c # cs) =
     (case company.company_name c of
        None \<Rightarrow> Inl AttributeError
      | Some name \<Rightarrow>
          (case build_company_lookup cs of
             Inl e \<Rightarrow> Inl e
           | Inr l \<Rightarrow> Inr ((str_strip (str_lower name), c) # l)))"

definition lookup_get :: "(string \<times> company) list \<Rightarrow> string \<Rightarrow> company option" where
  "lookup_get company_lookup key = map_of (rev company_lookup) key"

text \<open>
  The part of a row that determines \<open>contact_company_id\<close> and \<open>contact_segment_id\<close>:
  the row goes on with a company, or it is counted invalid with one error
  (\<open>continue\<close>), or \<open>row.get('company_name', '').strip()\<close> raises because the cell is
  \<open>None\<close>.
\<close>

datatype resolution = Raise exn | Skip upload_error | Resolved uuid "uuid option"

definition resolve_company ::
  "uuid option \<Rightarrow> uuid option \<Rightarrow> (string \<times> company) list \<Rightarrow> nat \<Rightarrow> csv_row \<Rightarrow> resolution" where
  "resolve_company company_id' segment_id' company_lookup n row =
     (case company_id' of
        Some cid \<Rightarrow> Resolved cid segment_id'
      | None \<Rightarrow>
          (case map_of row ''company_name'' of
             Some None \<Rightarrow> Raise AttributeError
           | cell \<Rightarrow>
               (let company_name_raw = str_strip (case cell of Some (Some v) \<Rightarrow> v | _ \<Rightarrow> [])
                in if company_name_raw \<noteq> [] then
                     (case lookup_get company_lookup (str_lower company_name_raw) of
                        Some matched_company \<Rightarrow>
                          Resolved (row_id matched_company) (company.segment_id matched_company)
                      | None \<Rightarrow>
                          Skip \<lparr>row_number = n, field = ''company_name'',
                                error = ''Company '' @ [CHR 0x27] @ company_name_raw @ [CHR 0x27]
                                          @ '' not found in segment''\<rparr>)
                   else
                     Skip \<lparr>row_number = n, field = ''company_name'',
                           error = ''company_name is required when company_id is not provided''\<rparr>)))"

text \<open>The loop variable \<open>contact_company_id\<close> is read again after the loop, so it is
  part of the loop state.\<close>

record contact_ingest = "contact ingest" +
  contact_company_id :: "uuid option"

definition process_contact_row ::
  "env \<Rightarrow> (csv_row \<Rightarrow> contact_create validation) \<Rightarrow> uuid option \<Rightarrow> uuid option
     \<Rightarrow> (string \<times> company) list \<Rightarrow> uuid \<Rightarrow> uuid \<Rightarrow> nat \<Rightarrow> csv_row
     \<Rightarrow> contact_ingest \<Rightarrow> exn + contact_ingest" where
  "process_contact_row e ContactCreate company_id' segment_id' company_lookup batch user n row st =
     (let st1 = st\<lparr>ingest.total_rows := ingest.total_rows st + 1,
                   contact_company_id := company_id'\<rparr>;
          filtered_row = filter_row contact_schema_fields row
      in case resolve_company company_id' segment_id' company_lookup n row of
           Raise x \<Rightarrow> Inl x
         | Skip err \<Rightarrow>
             Inr (st1\<lparr>ingest.invalid_rows := ingest.invalid_rows st1 + 1,
                      errors := errors st1 @ [err]\<rparr>)
         | Resolved cid seg \<Rightarrow>
             (let st2 = st1\<lparr>contact_company_id := Some cid\<rparr>;
                  filtered_row' = AList.update ''company_id'' (Some cid) filtered_row
              in case ContactCreate filtered_row' of
                   Valid contact_data \<Rightarrow>
                     (let k = length (staged st2);
                          c = Contact (gen_id e k) (gen_time e k) contact_data
                                (Some cid) seg (Some batch) user
                      in Inr (st2\<lparr>staged := staged st2 @ [c],
                                  ingest.valid_rows := ingest.valid_rows st2 + 1\<rparr>))
                 | ValidationError errs \<Rightarrow>
                     Inr (st2\<lparr>ingest.invalid_rows := ingest.invalid_rows st2 + 1,
                              errors := errors st2 @ validation_errors n errs\<rparr>)
                 | OtherException msg \<Rightarrow>
                     Inr (st2\<lparr>ingest.invalid_rows := ingest.invalid_rows st2 + 1,
                              errors := errors st2
                                @ [\<lparr>row_number = n, field = ''general'', error = msg\<rparr>]\<rparr>)))"

fun process_contact_rows ::
  "env \<Rightarrow> (csv_row \<Rightarrow> contact_create validation) \<Rightarrow> uuid option \<Rightarrow> uuid option
     \<Rightarrow> (string \<times> company) list \<Rightarrow> uuid \<Rightarrow> uuid \<Rightarrow> nat \<Rightarrow> csv_row list
     \<Rightarrow> contact_ingest \<Rightarrow> exn + contact_ingest" where
  "process_contact_rows e V company_id' segment_id' company_lookup batch user n [] st = Inr st"
| "process_contact_rows e V company_id' segment_id' company_lookup batch user n (row # rest) st =
     (case process_contact_row e V company_id' segment_id' company_lookup batch user n row st of
        Inl x \<Rightarrow> Inl x
      | Inr st' \<Rightarrow>
          process_contact_rows e V company_id' segment_id' company_lookup batch user (n + 1) rest st')"

definition process_contact_csv ::
  "env \<Rightarrow> (csv_row \<Rightarrow> contact_create validation) \<Rightarrow> db \<Rightarrow> upload_file
     \<Rightarrow> uuid option \<Rightarrow> uuid option \<Rightarrow> uuid \<Rightarrow> exn + csv_result" where
  "process_contact_csv e ContactCreate d file company_id' segment_id' user =
     (let (d0, batch) = create_batch d (new_batch_id e) CONTACT (file_name_of file)
                          (content_length file) user;
          segment_id1 =
            (case (company_id', segment_id') of
               (Some cid, None) \<Rightarrow>
                 (case get_company d0 cid of
                    Some company_row \<Rightarrow> company.segment_id company_row
                  | None \<Rightarrow> None)
             | _ \<Rightarrow> segment_id');
          lookup =
            (case (segment_id1, company_id') of
               (Some seg, None) \<Rightarrow>
                 build_company_lookup
                   (filter (\<lambda>c. company.segment_id c = Some seg) (companies d0))
             | _ \<Rightarrow> Inr [])
      in case lookup of
           Inl x \<Rightarrow> Inl x
         | Inr company_lookup \<Rightarrow>
             (case process_contact_rows e ContactCreate company_id' segment_id1 company_lookup
                     (batch_row_id batch) user 2 (rows file)
                     \<lparr>errors = [], total_rows = 0, valid_rows = 0, invalid_rows = 0,
                      staged = [], contact_company_id = None\<rparr> of
                Inl x \<Rightarrow> Inl x
              | Inr st \<Rightarrow>
                  (let batch' = batch\<lparr>upload_batch.total_rows := ingest.total_rows st,
                                     upload_batch.valid_rows := ingest.valid_rows st,
                                     upload_batch.invalid_rows := ingest.invalid_rows st,
                                     batch_status := (if ingest.invalid_rows st = 0
                                                      then COMPLETED else FAILED)\<rparr>;
                       d1 = flush_batch (d0\<lparr>contacts := contacts d0 @ staged st\<rparr>) batch'
                   in case (ingest.valid_rows st > 0, contact_company_id st) of
                        (True, Some cid) \<Rightarrow>
                          Inr \<lparr>out_db = fst (detect_contact_duplicates d1 cid),
                               out_batch = batch', out_errors = errors st,
                               detector_runs = [cid]\<rparr>
                      | _ \<Rightarrow>
                          Inr \<lparr>out_db = d1, out_batch = batch', out_errors = errors st,
                               detector_runs = []\<rparr>)))"

section \<open>The approval endpoint of the contact router\<close>

text \<open>
  Python binds the arguments of a call before the body of the callee runs. For a
  function whose parameters are all plain (no defaults, no \<open>*args\<close>, no \<open>**kwargs\<close>) a
  call with \<open>n\<close> positional arguments and the keyword arguments \<open>kws\<close> binds exactly when
  there are no more positional arguments than parameters, every keyword names a
  parameter that no positional argument has filled, and every parameter is filled;
  otherwise the call raises \<open>TypeError\<close>.
\<close>

definition binds :: "string list \<Rightarrow> nat \<Rightarrow> string list \<Rightarrow> bool" where
  "binds params n kws =
     (n \<le> length params
      \<and> (\<forall>k \<in> set kws. k \<in> set (drop n params))
      \<and> (\<forall>p \<in> set (drop n params). p \<in> set kws))"

text \<open>\<open>contact_service.approve_contact(db, contact_id, approval)\<close>.\<close>

definition approve_contact_params :: "string list" where
  "approve_contact_params = [''db'', ''contact_id'', ''approval'']"

text \<open>
  The handler \<open>approve_contact\<close> of \<open>app/routers/contacts.py\<close>. \<open>UUID\<close> is the
  constructor applied to \<open>current_user["id"]\<close>; it raises \<open>ValueError\<close> on malformed
  text. The call passes three positional arguments and the keyword \<open>approved_by\<close>.
  \<open>except ValueError\<close> answers 400 and \<open>except Exception\<close> answers 500; the result is
  the status code, the database and the contact returned.
\<close>

definition approve_contact_endpoint ::
  "(string \<Rightarrow> uuid option) \<Rightarrow> db \<Rightarrow> string \<Rightarrow> uuid \<Rightarrow> contact_approval
     \<Rightarrow> nat \<times> db \<times> contact option" where
  "approve_contact_endpoint UUID d current_user_id contact_id approval =
     (let outcome =
            (case UUID current_user_id of
               None \<Rightarrow> Inl (ValueError InvalidInput)
             | Some user_id \<Rightarrow>
                 if \<not> binds approve_contact_params 3 [''approved_by''] then Inl TypeError
                 else (case approve_contact d contact_id approval of
                         Inl err \<Rightarrow> Inl (ValueError err)
                       | Inr r \<Rightarrow> Inr r))
      in case outcome of
           Inr (d', c) \<Rightarrow> (200, d', Some c)
         | Inl (ValueError err) \<Rightarrow> (400, d, None)
         | Inl _ \<Rightarrow> (500, d, None))"

section \<open>Operations on companies\<close>

text \<open>One successful company operation on the database. An approval reaches the
  service as a \<open>CompanyApproval\<close> that the schema has constructed.\<close>

inductive company_step :: "db \<Rightarrow> db \<Rightarrow> bool" where
  step_create_company:
    "create_company d data u new_id now = (d', c) \<Longrightarrow> company_step d d'"
| step_update_company:
    "update_company d cid upd = Inr (d', c) \<Longrightarrow> company_step d d'"
| step_approve_company:
    "CompanyApproval raw_status raw_reason = Inr approval
     \<Longrightarrow> approve_company d cid approval approver now = Inr (d', c) \<Longrightarrow> company_step d d'"
| step_mark_company:
    "company_mark_duplicate d cid flag = Inr (d', c) \<Longrightarrow> company_step d d'"
| step_ingest_companies:
    "out_db (process_company_csv e V d file seg u) = d' \<Longrightarrow> company_step d d'"

text \<open>The invariant of a company row: the status is \<open>REJECTED\<close> exactly when there is
  a non-empty rejection reason.\<close>

definition reason_matches_status :: "company \<Rightarrow> bool" where
  "reason_matches_status c =
     ((company.status c = REJECTED \<longleftrightarrow> truthy (company.rejection_reason c))
      \<and> (company.status c \<in> {PENDING, COMPANY_APPROVED}
           \<longleftrightarrow> \<not> truthy (company.rejection_reason c)))"

section \<open>Specification of a pipeline move\<close>

text \<open>\<open>c'\<close> advances \<open>c\<close>: the status is the same or the next stage.\<close>

definition advances :: "contact \<Rightarrow> contact \<Rightarrow> bool" where
  "advances c c' \<longleftrightarrow> contact.status c' = contact.status c
                      \<or> stage (contact.status c') = Suc (stage (contact.status c))"

section \<open>Specification of the duplicate flags\<close>

text \<open>
  The flag that duplicate detection owes to each entity, read off the list of keys in
  creation order: an entity is a duplicate exactly when its key belongs to \<open>K\<close>, the
  keys seen before the list starts, or to an earlier entity of the list.
\<close>

fun dup_flags :: "'k set \<Rightarrow> 'k list \<Rightarrow> bool list" where
  "dup_flags K [] = []"
| "dup_flags K (k # ks) = (k \<in> K) # dup_flags (insert k K) ks"


section \<open>Specification of the batch record\<close>


section \<open>Sample data\<close>

text \<open>Three contacts of one company, at three stages of the pipeline.\<close>

definition alice :: contact where
  "alice = \<lparr>row_id = ''c1'', created_at = 1,
      contact.first_name = Some ''Alice'', contact.last_name = Some ''Ames'',
      contact.email = Some ''alice@acme.com'', contact.company_id = Some ''k1'',
      contact.segment_id = Some ''s1'', contact.status = UPLOADED,
      contact.assigned_sdr_id = None, contact.is_duplicate = False,
      contact.batch_id = None, contact.created_by = ''u1'', contact.attrs = []\<rparr>"

definition bob :: contact where
  "bob = \<lparr>row_id = ''c2'', created_at = 2,
      contact.first_name = Some ''Bob'', contact.last_name = Some ''Bell'',
      contact.email = Some ''bob@acme.com'', contact.company_id = Some ''k1'',
      contact.segment_id = Some ''s1'', contact.status = APPROVED,
      contact.assigned_sdr_id = None, contact.is_duplicate = False,
      contact.batch_id = None, contact.created_by = ''u1'', contact.attrs = []\<rparr>"

definition carol :: contact where
  "carol = \<lparr>row_id = ''c3'', created_at = 3,
      contact.first_name = Some ''Carol'', contact.last_name = Some ''Cole'',
      contact.email = Some ''carol@acme.com'', contact.company_id = Some ''k1'',
      contact.segment_id = Some ''s1'', contact.status = ASSIGNED_TO_SDR,
      contact.assigned_sdr_id = Some ''sdr1'', contact.is_duplicate = False,
      contact.batch_id = None, contact.created_by = ''u1'', contact.attrs = []\<rparr>"

definition contacts_db :: db where
  "contacts_db = \<lparr>companies = [], contacts = [alice, bob, carol], upload_batches = []\<rparr>"

text \<open>
  Three companies of segment \<open>s1\<close>; the third bears the name and website of the first
  in another case and with white space around them. A fourth contact repeats the
  e-mail address of the first in another case.
\<close>

definition acme :: company where
  "acme = Company ''k1'' 1
     \<lparr>company_create.company_name = ''Acme'', company_create.company_website = Some ''acme.com'',
      company_create.founded_year = None, company_create.segment_id = ''s1'',
      company_create.attrs = []\<rparr> (Some ''s1'') None ''u1''"

definition globex :: company where
  "globex = Company ''k2'' 2
     \<lparr>company_create.company_name = ''Globex'', company_create.company_website = None,
      company_create.founded_year = None, company_create.segment_id = ''s1'',
      company_create.attrs = []\<rparr> (Some ''s1'') None ''u1''"

definition acme_again :: company where
  "acme_again = Company ''k3'' 3
     \<lparr>company_create.company_name = '' ACME'', company_create.company_website = Some ''Acme.com '',
      company_create.founded_year = None, company_create.segment_id = ''s1'',
      company_create.attrs = []\<rparr> (Some ''s1'') None ''u1''"

definition alice_again :: contact where
  "alice_again = alice\<lparr>row_id := ''c4'', created_at := 4,
                        contact.email := Some ''Alice@Acme.com''\<rparr>"

definition sample_db :: db where
  "sample_db = \<lparr>companies = [acme, globex, acme_again],
                 contacts = [alice, bob, carol, alice_again], upload_batches = []\<rparr>"

text \<open>A rejection, and the sample database after the first company was rejected.\<close>

definition rejection :: company_approval where
  "rejection = \<lparr>company_approval.status = REJECTED,
                 company_approval.rejection_reason = Some ''out of scope''\<rparr>"

definition acme_rejected :: company where
  "acme_rejected = acme\<lparr>company.status := REJECTED,
                         company.rejection_reason := Some ''out of scope''\<rparr>"

definition rejected_db :: db where
  "rejected_db = flush_company sample_db acme_rejected"

text \<open>
  A contact upload for segment \<open>s1\<close> without a company id: two rows for Globex whose
  e-mail addresses differ in case only, and a row for a company the segment does not
  have. The stand-in for the \<open>ContactCreate\<close> schema requires the three name and e-mail
  cells.
\<close>

definition sample_env :: env where
  "sample_env = \<lparr>new_batch_id = ''b1'',
                  gen_id = (\<lambda>k. CHR ''n'' # replicate k (CHR ''+'')),
                  gen_time = (\<lambda>k. 10 + k)\<rparr>"

definition cell :: "csv_row \<Rightarrow> string \<Rightarrow> string option" where
  "cell row key = (case map_of row key of Some v \<Rightarrow> v | None \<Rightarrow> None)"

definition sample_ContactCreate :: "csv_row \<Rightarrow> contact_create validation" where
  "sample_ContactCreate row =
     (case (cell row ''first_name'', cell row ''last_name'', cell row ''email'',
            cell row ''company_id'') of
        (Some f, Some l, Some m, Some c) \<Rightarrow>
          Valid \<lparr>contact_create.first_name = f, contact_create.last_name = l,
                 contact_create.email = m, contact_create.company_id = c,
                 contact_create.attrs = []\<rparr>
      | _ \<Rightarrow> ValidationError [([''email''], ''Field required'')])"

definition contacts_file :: upload_file where
  "contacts_file =
     \<lparr>filename = Some ''contacts.csv'', content_length = 120,
      rows = [[(''first_name'', Some ''Dan''), (''last_name'', Some ''Dow''),
               (''email'', Some ''dan@globex.com''), (''company_name'', Some ''Globex'')],
              [(''first_name'', Some ''Dan''), (''last_name'', Some ''Dow''),
               (''email'', Some ''DAN@globex.com''), (''company_name'', Some ''Globex'')],
              [(''first_name'', Some ''Eve''), (''last_name'', Some ''Eck''),
               (''email'', Some ''eve@initech.com''), (''company_name'', Some ''Initech'')]]\<rparr>"

text \<open>A second upload: one contact for Globex and then one for Acme.\<close>

definition two_companies_file :: upload_file where
  "two_companies_file =
     \<lparr>filename = Some ''contacts.csv'', content_length = 80,
      rows = [[(''first_name'', Some ''Dan''), (''last_name'', Some ''Dow''),
               (''email'', Some ''dan@globex.com''), (''company_name'', Some ''Globex'')],
              [(''first_name'', Some ''Fay''), (''last_name'', Some ''Fox''),
               (''email'', Some ''fay@acme.com''), (''company_name'', Some ''Acme'')]]\<rparr>"

text \<open>
  A company upload into an empty database: three rows, of which the first and the
  third share name and website. The stand-in for the \<open>CompanyCreate\<close> schema requires
  the name.
\<close>

definition empty_db :: db where
  "empty_db = \<lparr>companies = [], contacts = [], upload_batches = []\<rparr>"

definition sample_CompanyCreate :: "csv_row \<Rightarrow> company_create validation" where
  "sample_CompanyCreate row =
     (case (cell row ''company_name'', cell row ''segment_id'') of
        (Some n, Some s) \<Rightarrow>
          Valid \<lparr>company_create.company_name = n,
                 company_create.company_website = cell row ''company_website'',
                 company_create.founded_year = None, company_create.segment_id = s,
                 company_create.attrs = []\<rparr>
      | _ \<Rightarrow> ValidationError [([''company_name''], ''Field required'')])"

definition companies_file :: upload_file where
  "companies_file =
     \<lparr>filename = Some ''companies.csv'', content_length = 90,
      rows = [[(''company_name'', Some ''Acme''), (''company_website'', Some ''acme.com'')],
              [(''company_name'', Some ''Globex''), (''company_website'', Some ''globex.com'')],
              [(''company_name'', Some ''Acme''), (''company_website'', Some ''acme.com'')]]\<rparr>"

section \<open>The contact pipeline\<close>

lemma find_row_id: "find (\<lambda>r. row_id r = i) xs = Some c \<Longrightarrow> row_id c = i"
  by (induction xs) (auto split: if_splits)

lemma get_contact_row_id: "get_contact d i = Some c \<Longrightarrow> row_id c = i"
  unfolding get_contact_def by (rule find_row_id)

lemma find_map_replace:
  "find (\<lambda>r. row_id r = i) xs = Some c \<Longrightarrow> row_id c' = i \<Longrightarrow>
   find (\<lambda>r. row_id r = i) (map (\<lambda>r. if row_id r = i then c' else r) xs) = Some c'"
  by (induction xs) (auto split: if_splits)

lemma find_map_other:
  "j \<noteq> i \<Longrightarrow> row_id c' = i \<Longrightarrow>
   find (\<lambda>r. row_id r = j) (map (\<lambda>r. if row_id r = i then c' else r) xs)
     = find (\<lambda>r. row_id r = j) xs"
  by (induction xs) auto

lemma get_flush_contact_same:
  "get_contact d i = Some c \<Longrightarrow> row_id c' = i \<Longrightarrow> get_contact (flush_contact d c') i = Some c'"
  unfolding get_contact_def flush_contact_def using find_map_replace[of i "contacts d" c c'] by simp

lemma get_flush_contact_other:
  "j \<noteq> row_id c' \<Longrightarrow> get_contact (flush_contact d c') j = get_contact d j"
  unfolding get_contact_def flush_contact_def using find_map_other[of j "row_id c'" c' "contacts d"] by simp





lemma find_append_Some:
  "find P xs = Some x \<Longrightarrow> find P (xs @ ys) = Some x"
  by (induction xs) (auto split: if_splits)

lemma flush_contact_lookup:
  assumes "get_contact d i = Some c0" and "row_id c' = i" and "get_contact d j = Some c"
  shows "get_contact (flush_contact d c') j = Some (if j = i then c' else c)"
proof (cases "j = i")
  case True
  then show ?thesis using assms get_flush_contact_same[of d i c0 c'] by simp
next
  case False
  then show ?thesis using assms get_flush_contact_other[of j c' d] by simp
qed

lemma approve_contact_advances:
  assumes "approve_contact d i approval = Inr (d', r)" and "get_contact d j = Some c"
  shows "\<exists>c'. get_contact d' j = Some c' \<and> advances c c'"
proof -
  obtain c0 where c0: "get_contact d i = Some c0"
    using assms(1) by (auto simp: approve_contact_def split: option.splits)
  have rid: "row_id c0 = i" using c0 by (rule get_contact_row_id)
  have up: "contact.status c0 = UPLOADED" and d': "d' = flush_contact d (c0\<lparr>contact.status := APPROVED\<rparr>)"
    using assms(1) c0 by (auto simp: approve_contact_def Let_def split: if_splits)
  have "get_contact d' j = Some (if j = i then c0\<lparr>contact.status := APPROVED\<rparr> else c)"
    unfolding d' using c0 rid assms(2) by (intro flush_contact_lookup) auto
  moreover have "j = i \<Longrightarrow> c = c0" using c0 assms(2) by simp
  ultimately show ?thesis using up by (auto simp: advances_def)
qed

lemma assign_to_sdr_effect:
  assumes "assign_to_sdr d i sdr = Inr (d', r)" and "get_contact d j = Some c"
  shows "\<exists>c'. get_contact d' j = Some c'
           \<and> (contact.status c' = contact.status c
               \<or> (contact.status c = APPROVED \<and> contact.status c' = ASSIGNED_TO_SDR))"
proof -
  obtain c0 where c0: "get_contact d i = Some c0"
    using assms(1) by (auto simp: assign_to_sdr_def split: option.splits)
  have rid: "row_id c0 = i" using c0 by (rule get_contact_row_id)
  let ?c1 = "c0\<lparr>assigned_sdr_id := Some sdr, contact.status := ASSIGNED_TO_SDR\<rparr>"
  have up: "contact.status c0 = APPROVED" and d': "d' = flush_contact d ?c1"
    using assms(1) c0 by (auto simp: assign_to_sdr_def Let_def split: if_splits)
  have "get_contact d' j = Some (if j = i then ?c1 else c)"
    unfolding d' using c0 rid assms(2) by (intro flush_contact_lookup) auto
  moreover have "j = i \<Longrightarrow> c = c0" using c0 assms(2) by simp
  ultimately show ?thesis using up by auto
qed

lemma mark_meeting_scheduled_advances:
  assumes "mark_meeting_scheduled d i = Inr (d', r)" and "get_contact d j = Some c"
  shows "\<exists>c'. get_contact d' j = Some c' \<and> advances c c'"
proof -
  obtain c0 where c0: "get_contact d i = Some c0"
    using assms(1) by (auto simp: mark_meeting_scheduled_def split: option.splits)
  have rid: "row_id c0 = i" using c0 by (rule get_contact_row_id)
  let ?c1 = "c0\<lparr>contact.status := MEETING_SCHEDULED\<rparr>"
  have up: "contact.status c0 = ASSIGNED_TO_SDR" and d': "d' = flush_contact d ?c1"
    using assms(1) c0 by (auto simp: mark_meeting_scheduled_def Let_def split: if_splits)
  have "get_contact d' j = Some (if j = i then ?c1 else c)"
    unfolding d' using c0 rid assms(2) by (intro flush_contact_lookup) auto
  moreover have "j = i \<Longrightarrow> c = c0" using c0 assms(2) by simp
  ultimately show ?thesis using up by (auto simp: advances_def)
qed

lemma apply_contact_update_status:
  "contact.status (apply_contact_update data c) = contact.status c"
  by (simp add: apply_contact_update_def Let_def split: option.splits)

lemma apply_contact_update_row_id:
  "row_id (apply_contact_update data c) = row_id c"
  by (simp add: apply_contact_update_def Let_def split: option.splits)

lemma update_contact_advances:
  assumes "update_contact d i upd = Inr (d', r)" and "get_contact d j = Some c"
  shows "\<exists>c'. get_contact d' j = Some c' \<and> advances c c'"
proof -
  obtain c0 where c0: "get_contact d i = Some c0"
    using assms(1) by (auto simp: update_contact_def split: option.splits)
  have rid: "row_id c0 = i" using c0 by (rule get_contact_row_id)
  let ?c1 = "apply_contact_update upd c0"
  have d': "d' = flush_contact d ?c1"
    using assms(1) c0 by (auto simp: update_contact_def Let_def)
  have "get_contact d' j = Some (if j = i then ?c1 else c)"
    unfolding d' using c0 rid assms(2)
    by (intro flush_contact_lookup) (auto simp: apply_contact_update_row_id)
  moreover have "j = i \<Longrightarrow> c = c0" using c0 assms(2) by simp
  ultimately show ?thesis by (auto simp: advances_def apply_contact_update_status)
qed

lemma contact_mark_duplicate_advances:
  assumes "contact_mark_duplicate d i flag = Inr (d', r)" and "get_contact d j = Some c"
  shows "\<exists>c'. get_contact d' j = Some c' \<and> advances c c'"
proof -
  obtain c0 where c0: "get_contact d i = Some c0"
    using assms(1) by (auto simp: contact_mark_duplicate_def split: option.splits)
  have rid: "row_id c0 = i" using c0 by (rule get_contact_row_id)
  let ?c1 = "c0\<lparr>contact.is_duplicate := flag\<rparr>"
  have d': "d' = flush_contact d ?c1"
    using assms(1) c0 by (auto simp: contact_mark_duplicate_def Let_def)
  have "get_contact d' j = Some (if j = i then ?c1 else c)"
    unfolding d' using c0 rid assms(2) by (intro flush_contact_lookup) auto
  moreover have "j = i \<Longrightarrow> c = c0" using c0 assms(2) by simp
  ultimately show ?thesis by (auto simp: advances_def)
qed

lemma create_contact_advances:
  assumes "create_contact d data u new_id now = Inr (d', r)" and "get_contact d j = Some c"
  shows "\<exists>c'. get_contact d' j = Some c' \<and> advances c c'"
proof -
  have "get_contact d' j = Some c"
    using assms by (auto simp: create_contact_def get_contact_def Let_def find_append_Some
                        split: option.splits)
  then show ?thesis by (auto simp: advances_def)
qed

lemma bulk_assign_effect:
  "bulk_assign_to_sdr d ids sdr = Inr (d', rs) \<Longrightarrow> get_contact d j = Some c \<Longrightarrow>
   \<exists>c'. get_contact d' j = Some c'
        \<and> (contact.status c' = contact.status c
            \<or> (contact.status c = APPROVED \<and> contact.status c' = ASSIGNED_TO_SDR))"
proof (induction ids arbitrary: d c rs)
  case Nil
  then show ?case by simp
next
  case (Cons i ids)
  from Cons.prems(1) obtain d1 r1 rs1 where
    a: "assign_to_sdr d i sdr = Inr (d1, r1)" and b: "bulk_assign_to_sdr d1 ids sdr = Inr (d', rs1)"
    by (auto split: sum.splits prod.splits)
  from assign_to_sdr_effect[OF a Cons.prems(2)] obtain c1 where
    c1: "get_contact d1 j = Some c1"
    and s1: "contact.status c1 = contact.status c
             \<or> (contact.status c = APPROVED \<and> contact.status c1 = ASSIGNED_TO_SDR)"
    by blast
  from Cons.IH[OF b c1] obtain c' where
    c': "get_contact d' j = Some c'"
    and s2: "contact.status c' = contact.status c1
             \<or> (contact.status c1 = APPROVED \<and> contact.status c' = ASSIGNED_TO_SDR)"
    by blast
  show ?case using c' s1 s2 by auto
qed

lemma contact_step_advances:
  assumes "contact_step d d'" and "get_contact d j = Some c"
  shows "\<exists>c'. get_contact d' j = Some c' \<and> advances c c'"
  using assms
proof (cases rule: contact_step.cases)
  case (step_create data u new_id now r)
  then show ?thesis using create_contact_advances assms(2) by blast
next
  case (step_update i upd r)
  then show ?thesis using update_contact_advances assms(2) by blast
next
  case (step_approve i approval r)
  then show ?thesis using approve_contact_advances assms(2) by blast
next
  case (step_assign i sdr r)
  from assign_to_sdr_effect[OF this assms(2)] show ?thesis by (auto simp: advances_def)
next
  case (step_bulk_assign ids sdr rs)
  from bulk_assign_effect[OF this assms(2)] show ?thesis by (auto simp: advances_def)
next
  case (step_meeting i r)
  then show ?thesis using mark_meeting_scheduled_advances assms(2) by blast
next
  case (step_duplicate i flag r)
  then show ?thesis using contact_mark_duplicate_advances assms(2) by blast
qed

lemma contact_steps_monotone:
  "contact_step\<^sup>*\<^sup>* d d' \<Longrightarrow> get_contact d j = Some c \<Longrightarrow>
   \<exists>c'. get_contact d' j = Some c' \<and> stage (contact.status c) \<le> stage (contact.status c')"
proof (induction rule: rtranclp_induct)
  case base
  then show ?case by simp
next
  case (step y z)
  then obtain c1 where c1: "get_contact y j = Some c1"
    and le: "stage (contact.status c) \<le> stage (contact.status c1)" by blast
  from contact_step_advances[OF step.hyps(2) c1] obtain c2 where
    "get_contact z j = Some c2" and "advances c1 c2" by blast
  then show ?case using le by (auto simp: advances_def)
qed

text \<open>
  Claim C8. One successful operation of the contact service (\<open>create_contact\<close>,
  \<open>update_contact\<close>, \<open>approve_contact\<close>, \<open>assign_to_sdr\<close>, \<open>bulk_assign_to_sdr\<close>,
  \<open>mark_meeting_scheduled\<close>, \<open>mark_duplicate\<close>) leaves the status of every existing
  contact where it is or moves it to the next stage of the pipeline; so over any
  sequence of operations the stage of a contact never decreases and no stage is
  skipped. The status type has the four pipeline members only: there is no rejected
  status to move to.
\<close>

theorem contact_status_never_regresses:
  "(contact_step d d' \<and> get_contact d j = Some c \<longrightarrow>
      (\<exists>c'. get_contact d' j = Some c'
         \<and> (contact.status c' = contact.status c
             \<or> stage (contact.status c') = Suc (stage (contact.status c)))))
   \<and> (contact_step\<^sup>*\<^sup>* d d'' \<and> get_contact d j = Some c \<longrightarrow>
      (\<exists>c''. get_contact d'' j = Some c''
         \<and> stage (contact.status c) \<le> stage (contact.status c'')))"
  using contact_step_advances[of d d' j c] contact_steps_monotone[of d d'' j c]
  by (auto simp: advances_def)

theorem contact_status_never_regresses_witness:
  "contact_step contacts_db (flush_contact contacts_db (alice\<lparr>contact.status := APPROVED\<rparr>))
   \<and> contact_step\<^sup>*\<^sup>* contacts_db (flush_contact contacts_db (alice\<lparr>contact.status := APPROVED\<rparr>))
   \<and> get_contact contacts_db ''c1'' = Some alice
   \<and> (\<exists>c'. get_contact (flush_contact contacts_db (alice\<lparr>contact.status := APPROVED\<rparr>)) ''c1''
              = Some c'
           \<and> stage (contact.status c') = Suc (stage (contact.status alice))
           \<and> stage (contact.status alice) \<le> stage (contact.status c'))"
proof -
  let ?d1 = "flush_contact contacts_db (alice\<lparr>contact.status := APPROVED\<rparr>)"
  have a: "get_contact contacts_db ''c1'' = Some alice"
    by (simp add: get_contact_def contacts_db_def alice_def)
  have sa: "contact.status alice = UPLOADED" by (simp add: alice_def)
  have ap: "approve_contact contacts_db ''c1'' APPROVED
              = Inr (?d1, alice\<lparr>contact.status := APPROVED\<rparr>)"
    using a sa by (simp add: approve_contact_def Let_def)
  have st: "contact_step contacts_db ?d1" using ap by (rule step_approve)
  have star: "contact_step\<^sup>*\<^sup>* contacts_db ?d1" using st by (rule r_into_rtranclp)
  from contact_status_never_regresses[of contacts_db ?d1 "''c1''" alice ?d1] st star a
  obtain c' where g: "get_contact ?d1 ''c1'' = Some c'"
    and s: "contact.status c' = contact.status alice
            \<or> stage (contact.status c') = Suc (stage (contact.status alice))"
    and le: "stage (contact.status alice) \<le> stage (contact.status c')"
    by auto
  have "get_contact ?d1 ''c1'' = Some (alice\<lparr>contact.status := APPROVED\<rparr>)"
    using a by (intro get_flush_contact_same) (auto simp: alice_def)
  then have "contact.status c' = APPROVED" using g by auto
  then have "stage (contact.status c') = Suc (stage (contact.status alice))"
    using sa by simp
  then show ?thesis using st star a g le by blast
qed


section \<open>Duplicate detection: the flags after a run\<close>

lemma length_dup_flags [simp]: "length (dup_flags K ks) = length ks"
  by (induction ks arbitrary: K) auto


lemma dom_if_upd: "dom (\<lambda>a. if a = k then Some c else m a) = insert k (dom m)"
  by (auto simp: dom_def)

lemma detect_companies_loop_eq:
  "detect_companies_loop seen n cs
     = (map2 (\<lambda>c b. c\<lparr>company.is_duplicate := b\<rparr>) cs (dup_flags (dom seen) (map company_key cs)),
        n + length (filter (\<lambda>(c, b). b \<and> \<not> company.is_duplicate c)
                     (zip cs (dup_flags (dom seen) (map company_key cs)))))"
proof (induction cs arbitrary: seen n)
  case Nil
  then show ?case by simp
next
  case (Cons c cs)
  show ?case
  proof (cases "seen (company_key c)")
    case None
    show ?thesis using None by (simp add: Let_def Cons.IH dom_if_upd domIff)
  next
    case (Some y)
    then have "company_key c \<in> dom seen" by (simp add: dom_def)
    then show ?thesis using Some by (simp add: Let_def Cons.IH insert_absorb)
  qed
qed

lemma detect_contacts_loop_eq:
  "detect_contacts_loop seen n cs
     = (map2 (\<lambda>c b. c\<lparr>contact.is_duplicate := b\<rparr>) cs (dup_flags (dom seen) (map email_key cs)),
        n + length (filter (\<lambda>(c, b). b \<and> \<not> contact.is_duplicate c)
                     (zip cs (dup_flags (dom seen) (map email_key cs)))))"
proof (induction cs arbitrary: seen n)
  case Nil
  then show ?case by simp
next
  case (Cons c cs)
  show ?case
  proof (cases "seen (email_key c)")
    case None
    show ?thesis using None by (simp add: Let_def Cons.IH dom_if_upd domIff)
  next
    case (Some y)
    then have "email_key c \<in> dom seen" by (simp add: dom_def)
    then show ?thesis using Some by (simp add: Let_def Cons.IH insert_absorb)
  qed
qed


lemma insort_key_map_commute:
  "k (f x) = k x \<Longrightarrow> \<forall>y\<in>set xs. k (f y) = k y \<Longrightarrow>
   insort_key k (f x) (map f xs) = map f (insort_key k x xs)"
  by (induction xs) auto

lemma sort_key_map_commute:
  "\<forall>y\<in>set xs. k (f y) = k y \<Longrightarrow> sort_key k (map f xs) = map f (sort_key k xs)"
proof (induction xs)
  case Nil
  then show ?case by simp
next
  case (Cons x xs)
  then have ih: "sort_key k (map f xs) = map f (sort_key k xs)" by simp
  have "insort_key k (f x) (map f (sort_key k xs)) = map f (insort_key k x (sort_key k xs))"
    using Cons.prems by (intro insort_key_map_commute) auto
  then show ?case using ih by (simp add: sort_key_def)
qed

lemma find_distinct_key:
  "distinct (map f xs) \<Longrightarrow> x \<in> set xs \<Longrightarrow> find (\<lambda>c. f c = f x) xs = Some x"
  by (induction xs) (auto simp: image_iff)

lemma find_key_None:
  "f x \<notin> f ` set xs \<Longrightarrow> find (\<lambda>c. f c = f x) xs = None"
  by (induction xs) auto

lemma distinct_key_unique:
  "distinct (map f xs) \<Longrightarrow> x \<in> set xs \<Longrightarrow> y \<in> set xs \<Longrightarrow> f x = f y \<Longrightarrow> x = y"
  by (meson distinct_map inj_on_def)

lemma flush_rows_query:
  fixes T :: "('a base_model_scheme) list"
  assumes dist: "distinct (map row_id T)"
    and len: "length objs = length (sort_key created_at (filter P T))"
    and same: "\<And>i. i < length objs \<Longrightarrow>
                 row_id (objs ! i) = row_id (sort_key created_at (filter P T) ! i)
               \<and> created_at (objs ! i) = created_at (sort_key created_at (filter P T) ! i)
               \<and> P (objs ! i)"
  shows "sort_key created_at (filter P (flush_rows objs T)) = objs"
    and "map row_id (flush_rows objs T) = map row_id T"
proof -
  let ?q = "sort_key created_at (filter P T)"
  let ?g = "\<lambda>r. case find (\<lambda>c. row_id c = row_id r) objs of Some c \<Rightarrow> c | None \<Rightarrow> r"
  have qT: "set ?q \<subseteq> set T" by auto
  have ids: "map row_id objs = map row_id ?q"
    using len same by (intro nth_equalityI) auto
  have dq: "distinct (map row_id ?q)"
  proof -
    have "distinct (map row_id (filter P T))" using dist by (rule distinct_map_filter)
    then have "distinct (filter P T)" and "inj_on row_id (set (filter P T))"
      by (auto simp: distinct_map)
    then show ?thesis by (simp add: distinct_map)
  qed
  have dobjs: "distinct (map row_id objs)" using ids dq by simp
  have g_q: "?g (?q ! i) = objs ! i" if "i < length ?q" for i
  proof -
    have "objs ! i \<in> set objs" using that len by simp
    then have "find (\<lambda>c. row_id c = row_id (objs ! i)) objs = Some (objs ! i)"
      using dobjs by (rule find_distinct_key[rotated])
    moreover have "row_id (objs ! i) = row_id (?q ! i)" using same that len by simp
    ultimately show ?thesis by simp
  qed
  have g_other: "?g r = r" if "r \<in> set T" "r \<notin> set ?q" for r
  proof -
    have "row_id r \<notin> row_id ` set ?q"
    proof
      assume "row_id r \<in> row_id ` set ?q"
      then obtain x where x: "x \<in> set ?q" "row_id x = row_id r" by auto
      then have "x \<in> set T" using qT by blast
      then have "x = r" using dist that(1) x(2) by (auto dest: distinct_key_unique)
      then show False using x(1) that(2) by simp
    qed
    then have "row_id r \<notin> row_id ` set objs"
      using ids by (metis set_map)
    then have "find (\<lambda>c. row_id c = row_id r) objs = None" by (rule find_key_None)
    then show ?thesis by simp
  qed
  have g_props: "row_id (?g r) = row_id r \<and> created_at (?g r) = created_at r \<and> P (?g r) = P r"
    if "r \<in> set T" for r
  proof (cases "r \<in> set ?q")
    case True
    then obtain i where i: "i < length ?q" "?q ! i = r"
      using in_set_conv_nth[of r ?q] by blast
    have "P r" using True by auto
    then show ?thesis using g_q[OF i(1)] same[of i] i len by auto
  next
    case False
    then show ?thesis using g_other[OF that] by simp
  qed
  have "filter P (map ?g T) = map ?g (filter (P \<circ> ?g) T)" by (simp add: filter_map)
  also have "filter (P \<circ> ?g) T = filter P T"
    using g_props by (intro filter_cong) auto
  finally have f: "filter P (map ?g T) = map ?g (filter P T)" .
  have "sort_key created_at (map ?g (filter P T)) = map ?g ?q"
    using g_props by (intro sort_key_map_commute) auto
  also have "map ?g ?q = objs"
    using g_q len by (intro nth_equalityI) auto
  finally show "sort_key created_at (filter P (flush_rows objs T)) = objs"
    using f by (simp add: flush_rows_def)
  show "map row_id (flush_rows objs T) = map row_id T"
    unfolding flush_rows_def using g_props by (intro nth_equalityI) auto
qed


lemma company_key_flag [simp]: "company_key (c\<lparr>company.is_duplicate := b\<rparr>) = company_key c"
  by (simp add: company_key_def)

lemma email_key_flag [simp]: "email_key (c\<lparr>contact.is_duplicate := b\<rparr>) = email_key c"
  by (simp add: email_key_def)

lemma companies_after_detection:
  assumes "distinct (map row_id (companies d))"
  shows "companies_of_segment (fst (detect_company_duplicates d seg)) seg
           = fst (detect_companies_loop Map.empty 0 (companies_of_segment d seg))"
    and "map row_id (companies (fst (detect_company_duplicates d seg))) = map row_id (companies d)"
proof -
  let ?P = "\<lambda>c. company.segment_id c = Some seg"
  let ?q = "sort_key created_at (filter ?P (companies d))"
  let ?objs = "fst (detect_companies_loop Map.empty 0 ?q)"
  have len: "length ?objs = length ?q" by (simp add: detect_companies_loop_eq)
  have same: "row_id (?objs ! i) = row_id (?q ! i)
              \<and> created_at (?objs ! i) = created_at (?q ! i) \<and> ?P (?objs ! i)"
    if "i < length ?objs" for i
  proof -
    have i: "i < length ?q" using that len by simp
    then have "?q ! i \<in> set ?q" by (rule nth_mem)
    then have "?P (?q ! i)" by simp
    then show ?thesis using i by (simp add: detect_companies_loop_eq)
  qed
  have d1: "companies (fst (detect_company_duplicates d seg)) = flush_rows ?objs (companies d)"
    by (simp add: detect_company_duplicates_def companies_of_segment_def split: prod.splits)
  show "companies_of_segment (fst (detect_company_duplicates d seg)) seg
           = fst (detect_companies_loop Map.empty 0 (companies_of_segment d seg))"
    unfolding companies_of_segment_def d1
    using flush_rows_query(1)[OF assms len same] by simp
  show "map row_id (companies (fst (detect_company_duplicates d seg))) = map row_id (companies d)"
    unfolding d1 using flush_rows_query(2)[OF assms len same] by simp
qed

lemma contacts_after_detection:
  assumes "distinct (map row_id (contacts d))"
  shows "contacts_of_company (fst (detect_contact_duplicates d cid)) cid
           = fst (detect_contacts_loop Map.empty 0 (contacts_of_company d cid))"
    and "map row_id (contacts (fst (detect_contact_duplicates d cid))) = map row_id (contacts d)"
proof -
  let ?P = "\<lambda>c. contact.company_id c = Some cid"
  let ?q = "sort_key created_at (filter ?P (contacts d))"
  let ?objs = "fst (detect_contacts_loop Map.empty 0 ?q)"
  have len: "length ?objs = length ?q" by (simp add: detect_contacts_loop_eq)
  have same: "row_id (?objs ! i) = row_id (?q ! i)
              \<and> created_at (?objs ! i) = created_at (?q ! i) \<and> ?P (?objs ! i)"
    if "i < length ?objs" for i
  proof -
    have i: "i < length ?q" using that len by simp
    then have "?q ! i \<in> set ?q" by (rule nth_mem)
    then have "?P (?q ! i)" by simp
    then show ?thesis using i by (simp add: detect_contacts_loop_eq)
  qed
  have d1: "contacts (fst (detect_contact_duplicates d cid)) = flush_rows ?objs (contacts d)"
    by (simp add: detect_contact_duplicates_def contacts_of_company_def split: prod.splits)
  show "contacts_of_company (fst (detect_contact_duplicates d cid)) cid
           = fst (detect_contacts_loop Map.empty 0 (contacts_of_company d cid))"
    unfolding contacts_of_company_def d1
    using flush_rows_query(1)[OF assms len same] by simp
  show "map row_id (contacts (fst (detect_contact_duplicates d cid))) = map row_id (contacts d)"
    unfolding d1 using flush_rows_query(2)[OF assms len same] by simp
qed







lemma detection_on_sample:
  "map company_key (companies sample_db) = [''acme||acme.com'', ''globex||'', ''acme||acme.com'']"
  "map company.is_duplicate (companies (fst (detect_company_duplicates sample_db ''s1'')))
     = [False, False, True]"
  "snd (detect_company_duplicates sample_db ''s1'') = 1"
  "map contact.is_duplicate (contacts (fst (detect_contact_duplicates sample_db ''k1'')))
     = [False, False, False, True]"
  by code_simp+

lemma flush_rows_same:
  fixes T :: "('a base_model_scheme) list"
  assumes "distinct (map row_id T)" and "set objs \<subseteq> set T"
  shows "flush_rows objs T = T"
proof -
  have "(case find (\<lambda>c. row_id c = row_id r) objs of Some c \<Rightarrow> c | None \<Rightarrow> r) = r"
    if "r \<in> set T" for r
  proof (cases "find (\<lambda>c. row_id c = row_id r) objs")
    case None
    then show ?thesis by simp
  next
    case (Some c)
    then have "c \<in> set objs" and "row_id c = row_id r"
      by (auto simp: find_Some_iff)
    then have "c = r" using assms that by (auto dest: distinct_key_unique)
    then show ?thesis using Some by simp
  qed
  then show ?thesis unfolding flush_rows_def by (simp add: map_idI)
qed

lemma company_loop_idempotent:
  "detect_companies_loop Map.empty 0 (fst (detect_companies_loop Map.empty 0 q))
     = (fst (detect_companies_loop Map.empty 0 q), 0)"
proof -
  let ?fl = "dup_flags {} (map company_key q)"
  let ?cs = "map2 (\<lambda>c b. c\<lparr>company.is_duplicate := b\<rparr>) q ?fl"
  have keys: "map company_key ?cs = map company_key q"
    by (intro nth_equalityI) auto
  have a: "map2 (\<lambda>c b. c\<lparr>company.is_duplicate := b\<rparr>) ?cs ?fl = ?cs"
    by (intro nth_equalityI) auto
  have b: "filter (\<lambda>(c, b). b \<and> \<not> company.is_duplicate c) (zip ?cs ?fl) = []"
    by (auto simp: filter_empty_conv in_set_zip)
  have e: "detect_companies_loop Map.empty 0 cs
             = (map2 (\<lambda>c b. c\<lparr>company.is_duplicate := b\<rparr>) cs (dup_flags {} (map company_key cs)),
                length (filter (\<lambda>(c, b). b \<and> \<not> company.is_duplicate c)
                          (zip cs (dup_flags {} (map company_key cs)))))" for cs
    by (simp add: detect_companies_loop_eq)
  have "detect_companies_loop Map.empty 0 ?cs = (?cs, 0)"
    unfolding e[of ?cs] keys using a b by simp
  then show ?thesis unfolding e[of q] fst_conv .
qed

lemma contact_loop_idempotent:
  "detect_contacts_loop Map.empty 0 (fst (detect_contacts_loop Map.empty 0 q))
     = (fst (detect_contacts_loop Map.empty 0 q), 0)"
proof -
  let ?fl = "dup_flags {} (map email_key q)"
  let ?cs = "map2 (\<lambda>c b. c\<lparr>contact.is_duplicate := b\<rparr>) q ?fl"
  have keys: "map email_key ?cs = map email_key q"
    by (intro nth_equalityI) auto
  have a: "map2 (\<lambda>c b. c\<lparr>contact.is_duplicate := b\<rparr>) ?cs ?fl = ?cs"
    by (intro nth_equalityI) auto
  have b: "filter (\<lambda>(c, b). b \<and> \<not> contact.is_duplicate c) (zip ?cs ?fl) = []"
    by (auto simp: filter_empty_conv in_set_zip)
  have e: "detect_contacts_loop Map.empty 0 cs
             = (map2 (\<lambda>c b. c\<lparr>contact.is_duplicate := b\<rparr>) cs (dup_flags {} (map email_key cs)),
                length (filter (\<lambda>(c, b). b \<and> \<not> contact.is_duplicate c)
                          (zip cs (dup_flags {} (map email_key cs)))))" for cs
    by (simp add: detect_contacts_loop_eq)
  have "detect_contacts_loop Map.empty 0 ?cs = (?cs, 0)"
    unfolding e[of ?cs] keys using a b by simp
  then show ?thesis unfolding e[of q] fst_conv .
qed

text \<open>
  Claim C6. Let the primary keys be distinct. Running \<open>detect_company_duplicates\<close> on
  the database that a first run has left changes nothing and returns the count zero;
  likewise for \<open>detect_contact_duplicates\<close>.
\<close>

theorem detection_is_idempotent:
  assumes "distinct (map row_id (companies d))" and "distinct (map row_id (contacts d))"
  shows "detect_company_duplicates (fst (detect_company_duplicates d seg)) seg
           = (fst (detect_company_duplicates d seg), 0)
       \<and> detect_contact_duplicates (fst (detect_contact_duplicates d cid)) cid
           = (fst (detect_contact_duplicates d cid), 0)"
proof
  let ?d1 = "fst (detect_company_duplicates d seg)"
  let ?q1 = "companies_of_segment ?d1 seg"
  have q1: "?q1 = fst (detect_companies_loop Map.empty 0 (companies_of_segment d seg))"
    using assms(1) by (rule companies_after_detection(1))
  have loop: "detect_companies_loop Map.empty 0 ?q1 = (?q1, 0)"
    unfolding q1 by (rule company_loop_idempotent)
  have dist: "distinct (map row_id (companies ?d1))"
    using assms(1) companies_after_detection(2)[OF assms(1), of seg] by simp
  have sub: "set ?q1 \<subseteq> set (companies ?d1)" by (auto simp: companies_of_segment_def)
  have "flush_rows ?q1 (companies ?d1) = companies ?d1"
    using dist sub by (rule flush_rows_same)
  then show "detect_company_duplicates ?d1 seg = (?d1, 0)"
    by (simp add: detect_company_duplicates_def[of ?d1 seg] loop)
next
  let ?d1 = "fst (detect_contact_duplicates d cid)"
  let ?q1 = "contacts_of_company ?d1 cid"
  have q1: "?q1 = fst (detect_contacts_loop Map.empty 0 (contacts_of_company d cid))"
    using assms(2) by (rule contacts_after_detection(1))
  have loop: "detect_contacts_loop Map.empty 0 ?q1 = (?q1, 0)"
    unfolding q1 by (rule contact_loop_idempotent)
  have dist: "distinct (map row_id (contacts ?d1))"
    using assms(2) contacts_after_detection(2)[OF assms(2), of cid] by simp
  have sub: "set ?q1 \<subseteq> set (contacts ?d1)" by (auto simp: contacts_of_company_def)
  have "flush_rows ?q1 (contacts ?d1) = contacts ?d1"
    using dist sub by (rule flush_rows_same)
  then show "detect_contact_duplicates ?d1 cid = (?d1, 0)"
    by (simp add: detect_contact_duplicates_def[of ?d1 cid] loop)
qed

theorem detection_is_idempotent_witness:
  "distinct (map row_id (companies sample_db)) \<and> distinct (map row_id (contacts sample_db))
   \<and> detect_company_duplicates (fst (detect_company_duplicates sample_db ''s1'')) ''s1''
        = (fst (detect_company_duplicates sample_db ''s1''), 0)
   \<and> detect_contact_duplicates (fst (detect_contact_duplicates sample_db ''k1'')) ''k1''
        = (fst (detect_contact_duplicates sample_db ''k1''), 0)"
proof -
  have a: "distinct (map row_id (companies sample_db))"
    by (simp add: sample_db_def acme_def globex_def acme_again_def Company_def)
  have b: "distinct (map row_id (contacts sample_db))"
    by (simp add: sample_db_def alice_def bob_def carol_def alice_again_def)
  from detection_is_idempotent[OF a b, of "''s1''" "''k1''"]
  show ?thesis using a b by blast
qed

section \<open>Company approval and the rejection reason\<close>

lemma get_company_row_id: "get_company d i = Some c \<Longrightarrow> row_id c = i"
  unfolding get_company_def by (rule find_row_id)

lemma get_flush_company_same:
  "get_company d i = Some c \<Longrightarrow> row_id c' = i \<Longrightarrow> get_company (flush_company d c') i = Some c'"
  unfolding get_company_def flush_company_def using find_map_replace[of i "companies d" c c'] by simp

lemma model_post_init_Inr:
  "model_post_init a = Inr a' \<longleftrightarrow>
     a' = a \<and> company_approval.status a \<noteq> PENDING
     \<and> (company_approval.status a = REJECTED \<longleftrightarrow> truthy (company_approval.rejection_reason a))"
  by (auto simp: model_post_init_def)

lemma CompanyApproval_Inr:
  "CompanyApproval raw_status raw_reason = Inr a \<longleftrightarrow>
     a = \<lparr>company_approval.status = (if raw_status = ''approved'' then COMPANY_APPROVED else REJECTED),
          company_approval.rejection_reason = raw_reason\<rparr>
     \<and> ((raw_status = ''approved'' \<and> \<not> truthy raw_reason)
         \<or> (raw_status = ''rejected'' \<and> (\<exists>r. raw_reason = Some r \<and> r \<noteq> [] \<and> length r \<le> 5000)))"
  by (auto simp: CompanyApproval_def CompanyStatusEnum_def model_post_init_Inr truthy_def
           split: option.splits)

lemma approve_company_pending:
  assumes "get_company d cid = Some c" and "company.status c = PENDING"
  shows "\<exists>d' c'. approve_company d cid approval approver now = Inr (d', c')
           \<and> company.status c' = company_approval.status approval
           \<and> company.rejection_reason c' = company_approval.rejection_reason approval
           \<and> get_company d' cid = Some c'"
proof -
  have rid: "row_id c = cid" using assms(1) by (rule get_company_row_id)
  let ?c1 = "c\<lparr>company.status := company_approval.status approval,
                company.rejection_reason := company_approval.rejection_reason approval\<rparr>"
  let ?c2 = "case approver of None \<Rightarrow> ?c1
             | Some u \<Rightarrow> ?c1\<lparr>approved_by := Some u, approved_at := Some now\<rparr>"
  have r2: "row_id ?c2 = cid" using rid by (simp split: option.splits)
  have "approve_company d cid approval approver now = Inr (flush_company d ?c2, ?c2)"
    using assms by (simp add: approve_company_def Let_def)
  moreover have "get_company (flush_company d ?c2) cid = Some ?c2"
    using assms(1) r2 by (rule get_flush_company_same)
  moreover have "company.status ?c2 = company_approval.status approval"
    and "company.rejection_reason ?c2 = company_approval.rejection_reason approval"
    by (simp_all split: option.splits)
  ultimately show ?thesis by blast
qed



lemma sample_get_acme: "get_company sample_db ''k1'' = Some acme"
  by (simp add: get_company_def sample_db_def acme_def Company_def)

lemma sample_acme_pending: "company.status acme = PENDING"
  by (simp add: acme_def Company_def)

lemma sample_reject_acme:
  "approve_company sample_db ''k1'' rejection None 5 = Inr (rejected_db, acme_rejected)"
  using sample_get_acme sample_acme_pending
  by (simp add: approve_company_def Let_def rejected_db_def acme_rejected_def rejection_def)

lemma sample_rejection_valid: "CompanyApproval ''rejected'' (Some ''out of scope'') = Inr rejection"
  by (simp add: CompanyApproval_Inr rejection_def)

lemma rejected_get_acme: "get_company rejected_db ''k1'' = Some acme_rejected"
  unfolding rejected_db_def using sample_get_acme
  by (rule get_flush_company_same) (simp add: acme_rejected_def acme_def Company_def)


lemma reason_matches_status_flag [simp]:
  "reason_matches_status (c\<lparr>company.is_duplicate := b\<rparr>) = reason_matches_status c"
  by (simp add: reason_matches_status_def)

lemma reason_matches_status_Company [simp]:
  "reason_matches_status (Company new_id now data seg batch u)"
  by (simp add: reason_matches_status_def Company_def truthy_def)

lemma reason_matches_status_update [simp]:
  "reason_matches_status (apply_company_update upd c) = reason_matches_status c"
  by (simp add: reason_matches_status_def apply_company_update_def Let_def split: option.splits)

lemma flush_company_invariant:
  assumes "\<forall>x\<in>set (companies d). reason_matches_status x" and "reason_matches_status c'"
  shows "\<forall>x\<in>set (companies (flush_company d c')). reason_matches_status x"
  using assms by (auto simp: flush_company_def)

lemma get_company_mem: "get_company d cid = Some c \<Longrightarrow> c \<in> set (companies d)"
  unfolding get_company_def by (auto simp: find_Some_iff)

lemma flush_rows_set:
  "x \<in> set (flush_rows objs T) \<Longrightarrow> x \<in> set T \<or> x \<in> set objs"
proof -
  assume "x \<in> set (flush_rows objs T)"
  then obtain r where r: "r \<in> set T"
    and x: "x = (case find (\<lambda>c. row_id c = row_id r) objs of Some c \<Rightarrow> c | None \<Rightarrow> r)"
    unfolding flush_rows_def by auto
  show ?thesis
  proof (cases "find (\<lambda>c. row_id c = row_id r) objs")
    case None
    then show ?thesis using r x by simp
  next
    case (Some c)
    then have "c \<in> set objs" by (auto simp: find_Some_iff)
    then show ?thesis using x Some by simp
  qed
qed

lemma detect_companies_loop_set:
  assumes "x \<in> set (fst (detect_companies_loop seen n cs))"
  shows "\<exists>c\<in>set cs. \<exists>b. x = c\<lparr>company.is_duplicate := b\<rparr>"
proof -
  from assms obtain i where "i < length cs"
    and "x = (cs ! i)\<lparr>company.is_duplicate := dup_flags (dom seen) (map company_key cs) ! i\<rparr>"
    unfolding detect_companies_loop_eq fst_conv by (auto simp: in_set_conv_nth)
  then show ?thesis using nth_mem by blast
qed

lemma detect_company_duplicates_invariant:
  assumes "\<forall>x\<in>set (companies d). reason_matches_status x"
  shows "\<forall>x\<in>set (companies (fst (detect_company_duplicates d seg))). reason_matches_status x"
proof
  fix x assume "x \<in> set (companies (fst (detect_company_duplicates d seg)))"
  then have "x \<in> set (flush_rows (fst (detect_companies_loop Map.empty 0 (companies_of_segment d seg)))
                        (companies d))"
    by (simp add: detect_company_duplicates_def split: prod.splits)
  then consider "x \<in> set (companies d)"
    | "x \<in> set (fst (detect_companies_loop Map.empty 0 (companies_of_segment d seg)))"
    using flush_rows_set by blast
  then show "reason_matches_status x"
  proof cases
    case 1
    then show ?thesis using assms by blast
  next
    case 2
    then obtain c b where "c \<in> set (companies_of_segment d seg)"
      and x: "x = c\<lparr>company.is_duplicate := b\<rparr>"
      using detect_companies_loop_set by blast
    then have "c \<in> set (companies d)" by (simp add: companies_of_segment_def)
    then show ?thesis using assms x by simp
  qed
qed

lemma process_company_rows_staged:
  "\<forall>x\<in>set (staged st). reason_matches_status x \<Longrightarrow>
   \<forall>x\<in>set (staged (process_company_rows e V seg batch u n rs st)). reason_matches_status x"
proof (induction rs arbitrary: st n)
  case Nil
  then show ?case by simp
next
  case (Cons row rest)
  show ?case
    apply (simp only: process_company_rows.simps Let_def)
    apply (rule Cons.IH)
    using Cons.prems by (auto split: validation.splits)
qed

lemma process_company_csv_invariant:
  assumes "\<forall>x\<in>set (companies d). reason_matches_status x"
  shows "\<forall>x\<in>set (companies (out_db (process_company_csv e V d file seg u))). reason_matches_status x"
proof -
  let ?batch = "snd (create_batch d (new_batch_id e) COMPANY (file_name_of file) (content_length file) u)"
  let ?d0 = "fst (create_batch d (new_batch_id e) COMPANY (file_name_of file) (content_length file) u)"
  let ?st = "process_company_rows e V seg (batch_row_id ?batch) u 2 (rows file)
               \<lparr>errors = [], total_rows = 0, valid_rows = 0, invalid_rows = 0, staged = []\<rparr>"
  have d0: "companies ?d0 = companies d" by (simp add: create_batch_def Let_def)
  have st: "\<forall>x\<in>set (staged ?st). reason_matches_status x"
    by (rule process_company_rows_staged) simp
  have d1: "\<forall>x\<in>set (companies (flush_batch (?d0\<lparr>companies := companies ?d0 @ staged ?st\<rparr>) b)).
              reason_matches_status x" for b
    using assms st d0 by (auto simp: flush_batch_def)
  show ?thesis
    unfolding process_company_csv_def Let_def
    using d1 detect_company_duplicates_invariant[OF d1]
    by (simp add: split_beta)
qed

lemma company_step_invariant:
  assumes "company_step d d'" and "\<forall>x\<in>set (companies d). reason_matches_status x"
  shows "\<forall>x\<in>set (companies d'). reason_matches_status x"
  using assms(1)
proof (cases rule: company_step.cases)
  case (step_create_company data u new_id now c)
  then show ?thesis using assms(2) by (auto simp: create_company_def Let_def)
next
  case (step_update_company cid upd c)
  then obtain c0 where c0: "get_company d cid = Some c0"
    and d': "d' = flush_company d (apply_company_update upd c0)"
    by (auto simp: update_company_def Let_def split: option.splits)
  have "reason_matches_status c0" using c0 assms(2) get_company_mem by blast
  then show ?thesis unfolding d' using assms(2) by (intro flush_company_invariant) auto
next
  case (step_approve_company raw_status raw_reason approval cid approver now c)
  from step_approve_company(2) obtain c0 where c0: "get_company d cid = Some c0"
    by (auto simp: approve_company_def split: option.splits)
  from step_approve_company(2) c0 have d': "d' = flush_company d c"
    and st: "company.status c = company_approval.status approval"
    and rr: "company.rejection_reason c = company_approval.rejection_reason approval"
    by (auto simp: approve_company_def Let_def split: if_splits option.splits)
  have "reason_matches_status c"
    using step_approve_company(1) st rr
    by (cases "company_approval.status approval")
       (auto simp: CompanyApproval_Inr reason_matches_status_def truthy_def)
  then show ?thesis unfolding d' using assms(2) by (intro flush_company_invariant) auto
next
  case (step_mark_company cid flag c)
  then obtain c0 where c0: "get_company d cid = Some c0"
    and d': "d' = flush_company d (c0\<lparr>company.is_duplicate := flag\<rparr>)"
    by (auto simp: company_mark_duplicate_def Let_def split: option.splits)
  have "reason_matches_status c0" using c0 assms(2) get_company_mem by blast
  then show ?thesis unfolding d' using assms(2) by (intro flush_company_invariant) auto
next
  case (step_ingest_companies e V fl seg u)
  then show ?thesis using process_company_csv_invariant[OF assms(2)] by blast
qed

text \<open>
  Claim C7. Start from a database in which every company satisfies the invariant (an
  empty table, for one). After any sequence of successful company operations
  (\<open>create_company\<close>, \<open>update_company\<close>, \<open>approve_company\<close> with a constructed
  decision, \<open>mark_duplicate\<close>, batch ingestion with its duplicate detection) every
  company has the status \<open>rejected\<close> exactly when its rejection reason is non-empty,
  and a status among \<open>pending\<close>, \<open>approved\<close> exactly when its rejection reason is
  empty.
\<close>

theorem rejected_iff_reason:
  assumes "\<forall>x\<in>set (companies d). reason_matches_status x" and "company_step\<^sup>*\<^sup>* d d'"
    and "c \<in> set (companies d')"
  shows "(company.status c = REJECTED \<longleftrightarrow> truthy (company.rejection_reason c))
       \<and> (company.status c \<in> {PENDING, COMPANY_APPROVED}
            \<longleftrightarrow> \<not> truthy (company.rejection_reason c))"
proof -
  have "\<forall>x\<in>set (companies d'). reason_matches_status x"
    using assms(2,1)
  proof (induction rule: rtranclp_induct)
    case base
    then show ?case by simp
  next
    case (step y z)
    then show ?case using company_step_invariant by blast
  qed
  then show ?thesis using assms(3) by (simp add: reason_matches_status_def)
qed


theorem rejected_iff_reason_witness:
  "list_all reason_matches_status (companies sample_db)
   \<and> company_step\<^sup>*\<^sup>* sample_db rejected_db
   \<and> acme_rejected \<in> set (companies rejected_db)
   \<and> company.status acme_rejected = REJECTED
   \<and> truthy (company.rejection_reason acme_rejected)"
proof -
  have inv: "\<forall>x\<in>set (companies sample_db). reason_matches_status x"
    by (simp add: sample_db_def acme_def globex_def acme_again_def)
  have "company_step sample_db rejected_db"
    using sample_rejection_valid sample_reject_acme by (rule step_approve_company)
  then have star: "company_step\<^sup>*\<^sup>* sample_db rejected_db" by (rule r_into_rtranclp)
  have mem: "acme_rejected \<in> set (companies rejected_db)"
    using rejected_get_acme by (rule get_company_mem)
  have st: "company.status acme_rejected = REJECTED" by (simp add: acme_rejected_def)
  from rejected_iff_reason[OF inv star mem] st
  have "truthy (company.rejection_reason acme_rejected)" by simp
  then show ?thesis using inv star mem st by (simp add: list_all_iff)
qed

section \<open>Batch ingestion: counters, status and error order\<close>







lemma resolve_company_given:
  "resolve_company (Some cid) sid lk n row = Resolved cid sid"
  by (simp add: resolve_company_def)














text \<open>The scenario of the specification: the three-row upload gives a completed batch
  with three valid rows, and detection flags the third company only.\<close>

lemma three_row_company_upload:
  "out_batch (process_company_csv sample_env sample_CompanyCreate empty_db companies_file
                ''s1'' ''u1'')
     = \<lparr>batch_row_id = ''b1'', upload_type = COMPANY, file_name = ''companies.csv'',
        file_size_bytes = 90, total_rows = 3, valid_rows = 3, invalid_rows = 0,
        batch_status = COMPLETED, uploaded_by = ''u1''\<rparr>"
  "map company.is_duplicate
     (companies (out_db (process_company_csv sample_env sample_CompanyCreate empty_db
                           companies_file ''s1'' ''u1'')))
     = [False, False, True]"
  "detector_runs (process_company_csv sample_env sample_CompanyCreate empty_db companies_file
                    ''s1'' ''u1'') = [''s1'']"
  by code_simp+

section \<open>Batch ingestion: the scope of duplicate detection\<close>

text \<open>
  When the upload names a company id, every row goes to that company and the detector
  runs on it as soon as one row is valid.
\<close>

lemma process_contact_row_given_company:
  "process_contact_row e V (Some cid) sid lk batch u n row st = Inr st' \<Longrightarrow>
   contact_company_id st' = Some cid"
  by (auto simp: process_contact_row_def Let_def resolve_company_given split: validation.splits)

lemma process_contact_rows_given_company:
  "process_contact_rows e V (Some cid) sid lk batch u n rs st = Inr st' \<Longrightarrow> rs \<noteq> [] \<Longrightarrow>
   contact_company_id st' = Some cid"
proof (induction rs arbitrary: st n)
  case Nil
  then show ?case by simp
next
  case (Cons row rest)
  from Cons.prems(1) obtain st1 where
    r: "process_contact_row e V (Some cid) sid lk batch u n row st = Inr st1"
    and rs: "process_contact_rows e V (Some cid) sid lk batch u (n + 1) rest st1 = Inr st'"
    by (auto split: sum.splits)
  show ?case
  proof (cases rest)
    case Nil
    then show ?thesis using r rs process_contact_row_given_company by auto
  next
    case (Cons a list)
    then show ?thesis using Cons.IH[OF rs] by simp
  qed
qed

lemma process_contact_csv_given_company_runs:
  assumes "process_contact_csv e V d file (Some cid) sid u = Inr r"
    and "upload_batch.valid_rows (out_batch r) > 0"
  shows "detector_runs r = [cid]"
proof -
  let ?cb = "create_batch d (new_batch_id e) CONTACT (file_name_of file) (content_length file) u"
  let ?batch = "snd ?cb" and ?da = "fst ?cb"
  let ?ini = "\<lparr>errors = [], total_rows = 0, valid_rows = 0, invalid_rows = 0,
               staged = ([] :: contact list), contact_company_id = None\<rparr>"
  from assms(1) obtain sid1 lk st where
    rows: "process_contact_rows e V (Some cid) sid1 lk (batch_row_id ?batch) u 2 (rows file) ?ini
             = Inr st"
    and v: "upload_batch.valid_rows (out_batch r) = ingest.valid_rows st"
    and runs: "detector_runs r = (case (ingest.valid_rows st > 0, contact_company_id st) of
                                   (True, Some c) \<Rightarrow> [c] | _ \<Rightarrow> [])"
    unfolding process_contact_csv_def Let_def split_beta
    by (auto split: sum.splits bool.splits option.splits)
  have "rows file \<noteq> []"
  proof
    assume "rows file = []"
    then have "st = ?ini" using rows by simp
    then show False using assms(2) v by simp
  qed
  then have "contact_company_id st = Some cid"
    using rows by (intro process_contact_rows_given_company)
  then show ?thesis using runs v assms(2) by simp
qed

text \<open>
  Claim C9: every company that received a contact of the batch has contact duplicate
  detection run for it. The code runs the detector on the company of the last row
  only, and not at all when the last row found no company. In the first upload below
  (segment \<open>s1\<close>, no company id) Globex receives two contacts whose e-mail addresses
  have the same key and the third row names an unknown company: two rows are valid,
  the detector is not invoked, both contacts stay unflagged, and a run of the detector
  on Globex afterwards would flag one. In the second upload Globex and the later Acme
  row each receive a contact, and the detector runs for the company of the last row
  only.
\<close>

theorem contact_batch_skips_detection:
  "(case process_contact_csv sample_env sample_ContactCreate sample_db contacts_file
           None (Some ''s1'') ''u1'' of
      Inl x \<Rightarrow> False
    | Inr r \<Rightarrow>
        upload_batch.valid_rows (out_batch r) = 2
        \<and> map contact.company_id
              (filter (\<lambda>c. contact.batch_id c = Some ''b1'') (contacts (out_db r)))
            = [Some ''k2'', Some ''k2'']
        \<and> detector_runs r = []
        \<and> map contact.is_duplicate (contacts_of_company (out_db r) ''k2'') = [False, False]
        \<and> snd (detect_contact_duplicates (out_db r) ''k2'') = 1)
   \<and> (case process_contact_csv sample_env sample_ContactCreate sample_db two_companies_file
           None (Some ''s1'') ''u1'' of
      Inl x \<Rightarrow> False
    | Inr r \<Rightarrow>
        upload_batch.valid_rows (out_batch r) = 2
        \<and> map contact.company_id
              (filter (\<lambda>c. contact.batch_id c = Some ''b1'') (contacts (out_db r)))
            = [Some ''k2'', Some ''k3'']
        \<and> detector_runs r = [''k3''])"
  by code_simp

section \<open>The contact approval endpoint\<close>

lemma binds_approved_by: "\<not> binds approve_contact_params 3 [''approved_by'']"
  by (simp add: binds_def approve_contact_params_def)

text \<open>
  Claim C5. The call of the handler passes the keyword \<open>approved_by\<close>, which is not a
  parameter of \<open>contact_service.approve_contact\<close>, so the call raises \<open>TypeError\<close>
  before the service body runs. Whenever the user id of the authenticated user parses
  (it is the text of a UUID column), the endpoint answers 500 whatever the contact and
  the approval are, and leaves the database as it is; it never answers 200.
\<close>

theorem approve_endpoint_never_reaches_service:
  "\<not> binds approve_contact_params 3 [''approved_by'']
   \<and> (UUID current_user_id \<noteq> None \<longrightarrow>
        approve_contact_endpoint UUID d current_user_id contact_id approval = (500, d, None))
   \<and> (UUID current_user_id = None \<longrightarrow>
        approve_contact_endpoint UUID d current_user_id contact_id approval = (400, d, None))"
  using binds_approved_by
  by (auto simp: approve_contact_endpoint_def Let_def split: option.splits)

theorem approve_endpoint_never_reaches_service_witness:
  "(\<lambda>s. Some s) ''u1'' \<noteq> (None :: uuid option)
   \<and> get_contact sample_db ''c1'' = Some alice \<and> contact.status alice = UPLOADED
   \<and> approve_contact_endpoint (\<lambda>s. Some s) sample_db ''u1'' ''c1'' APPROVED = (500, sample_db, None)
   \<and> approve_contact_endpoint (\<lambda>s. None) sample_db ''u1'' ''c1'' APPROVED = (400, sample_db, None)"
proof -
  have a: "get_contact sample_db ''c1'' = Some alice"
    by (simp add: get_contact_def sample_db_def alice_def)
  have s: "contact.status alice = UPLOADED" by (simp add: alice_def)
  from approve_endpoint_never_reaches_service[of "\<lambda>s. Some s" "''u1''" sample_db "''c1''" APPROVED]
       approve_endpoint_never_reaches_service[of "\<lambda>s. None" "''u1''" sample_db "''c1''" APPROVED]
  show ?thesis using a s by simp
qed

section \<open>Two approvals of one company, one after the other\<close>

text \<open>
  Within one session the second of two approvals of the same company fails: the first
  leaves a status other than \<open>pending\<close>. What two sessions running at the same time
  observe is decided by the isolation of the database and is not part of this model.
\<close>

lemma second_approval_fails:
  assumes "CompanyApproval raw_status raw_reason = Inr approval"
    and "approve_company d cid approval approver now = Inr (d', c)"
  shows "approve_company d' cid approval' approver' now' = Inl InvalidTransition"
proof -
  from assms(2) obtain c0 where c0: "get_company d cid = Some c0"
    by (auto simp: approve_company_def split: option.splits)
  from assms(2) c0 have p: "company.status c0 = PENDING"
    by (auto simp: approve_company_def split: if_splits)
  from approve_company_pending[OF c0 p, of approval approver now] assms(2)
  have g: "get_company d' cid = Some c"
    and st: "company.status c = company_approval.status approval" by auto
  have "company_approval.status approval \<noteq> PENDING"
    using assms(1) by (auto simp: CompanyApproval_Inr)
  then show ?thesis using g st by (simp add: approve_company_def)
qed

end
